theory Spec2Isabelle
  imports Main
begin

section \<open>Text operations of the host language\<close>

text \<open>
  The program is \<^verbatim>\<open>medaid_app.py\<close>. Its texts are Python strings; here a text is a
  \<^typ>\<open>string\<close>, one \<^typ>\<open>char\<close> per character, read as the code points 0 to 255.
  The string methods the program calls are written out for exactly these code points, from
  the tables of the language; a text with a character beyond 255 is not a value of the
  type.
\<close>

text \<open>The characters \<^verbatim>\<open>str.isupper\<close> accepts, and under each its \<^verbatim>\<open>str.lower\<close>, in
  the same order: the letters A to Z, and the code points 0xC0 to 0xDE without the
  multiplication sign 0xD7.\<close>

definition uppercase_letters :: string where
  "uppercase_letters = ''ABCDEFGHIJKLMNOPQRSTUVWXYZ'' @
      [CHR 0xC0, CHR 0xC1, CHR 0xC2, CHR 0xC3, CHR 0xC4, CHR 0xC5, CHR 0xC6,
       CHR 0xC7, CHR 0xC8, CHR 0xC9, CHR 0xCA, CHR 0xCB, CHR 0xCC, CHR 0xCD,
       CHR 0xCE, CHR 0xCF, CHR 0xD0, CHR 0xD1, CHR 0xD2, CHR 0xD3, CHR 0xD4,
       CHR 0xD5, CHR 0xD6, CHR 0xD8, CHR 0xD9, CHR 0xDA, CHR 0xDB, CHR 0xDC,
       CHR 0xDD, CHR 0xDE]"

definition lowercase_letters :: string where
  "lowercase_letters = ''abcdefghijklmnopqrstuvwxyz'' @
      [CHR 0xE0, CHR 0xE1, CHR 0xE2, CHR 0xE3, CHR 0xE4, CHR 0xE5, CHR 0xE6,
       CHR 0xE7, CHR 0xE8, CHR 0xE9, CHR 0xEA, CHR 0xEB, CHR 0xEC, CHR 0xED,
       CHR 0xEE, CHR 0xEF, CHR 0xF0, CHR 0xF1, CHR 0xF2, CHR 0xF3, CHR 0xF4,
       CHR 0xF5, CHR 0xF6, CHR 0xF8, CHR 0xF9, CHR 0xFA, CHR 0xFB, CHR 0xFC,
       CHR 0xFD, CHR 0xFE]"

text \<open>The cased characters with no capital among the code points up to 255: the two
  ordinal indicators, the micro sign, the sharp s and the y with diaeresis.\<close>

definition other_cased :: string where
  "other_cased = [CHR 0xAA, CHR 0xB5, CHR 0xBA, CHR 0xDF, CHR 0xFF]"

definition is_cased :: "char \<Rightarrow> bool" where
  "is_cased c = (c \<in> set (uppercase_letters @ lowercase_letters @ other_cased))"

definition lower_char :: "char \<Rightarrow> char" where
  "lower_char c =
     (case map_of (zip uppercase_letters lowercase_letters) c of Some d \<Rightarrow> d | None \<Rightarrow> c)"

text \<open>The title case of one character: the capital of a small letter, the two letters
  Ss for the sharp s, and the character itself otherwise. Python gives the micro sign
  and the y with diaeresis capitals beyond 255 (0x39C and 0x178), which a \<^typ>\<open>char\<close>
  cannot hold: here the two are left as they are. With either result the text is none of
  the keys of \<^verbatim>\<open>SEVERITY_DISPLAY\<close>, which are made of the letters A to Z.\<close>

definition totitle :: "char \<Rightarrow> string" where
  "totitle c =
     (if c = CHR 0xDF then ''Ss''
      else case map_of (zip lowercase_letters uppercase_letters) c of
             Some d \<Rightarrow> [d]
           | None \<Rightarrow> [c])"

text \<open>\<^verbatim>\<open>str.isspace\<close> on one character: tab, line feed, vertical tab, form feed,
  carriage return, the four separators 0x1C..0x1F, the blank, the next-line control 0x85
  and the no-break space 0xA0.\<close>

definition whitespace :: string where
  "whitespace = [CHR 0x09, CHR 0x0A, CHR 0x0B, CHR 0x0C, CHR 0x0D,
                 CHR 0x1C, CHR 0x1D, CHR 0x1E, CHR 0x1F, CHR '' '', CHR 0x85, CHR 0xA0]"

definition is_space :: "char \<Rightarrow> bool" where
  "is_space c = (c \<in> set whitespace)"

text \<open>\<^verbatim>\<open>s.lower()\<close>\<close>

definition lower :: "string \<Rightarrow> string" where
  "lower s = map lower_char s"

text \<open>\<^verbatim>\<open>s.strip()\<close>: white space is dropped at both ends.\<close>

definition strip :: "string \<Rightarrow> string" where
  "strip s = rev (dropWhile is_space (rev (dropWhile is_space s)))"

text \<open>\<^verbatim>\<open>s.title()\<close>: a character that follows a cased character is lowered, any other
  character is put in title case; the flag says whether the character before was
  cased.\<close>

fun title_from :: "bool \<Rightarrow> string \<Rightarrow> string" where
  "title_from previous_is_cased [] = []"
| "title_from previous_is_cased (c # cs) =
     (if previous_is_cased then [lower_char c] else totitle c) @ title_from (is_cased c) cs"

definition title :: "string \<Rightarrow> string" where
  "title s = title_from False s"

text \<open>\<^verbatim>\<open>s.startswith(p)\<close>\<close>

fun startswith :: "string \<Rightarrow> string \<Rightarrow> bool" where
  "startswith s [] = True"
| "startswith [] (p # ps) = False"
| "startswith (c # cs) (p # ps) = (c = p \<and> startswith cs ps)"

text \<open>\<^verbatim>\<open>sub in s\<close>: \<open>sub\<close> occurs in \<open>s\<close> as a contiguous run, at some position.\<close>

fun contains :: "string \<Rightarrow> string \<Rightarrow> bool" where
  "contains [] sub = (sub = [])"
| "contains (c # cs) sub = (startswith (c # cs) sub \<or> contains cs sub)"

text \<open>\<^verbatim>\<open>s.splitlines()\<close>: the line boundaries are line feed,
  carriage return (with a line feed after it, one boundary), vertical tab, form feed, the
  separators 0x1C, 0x1D, 0x1E and the next-line control 0x85. The boundaries are not kept,
  and a boundary at the very end opens no further line. The first argument is the line
  read so far, reversed.\<close>

definition is_linebreak :: "char \<Rightarrow> bool" where
  "is_linebreak c =
     (c \<in> set [CHR 0x0A, CHR 0x0B, CHR 0x0C, CHR 0x0D, CHR 0x1C, CHR 0x1D, CHR 0x1E, CHR 0x85])"

fun splitlines_from :: "string \<Rightarrow> string \<Rightarrow> string list" where
  "splitlines_from cur [] = (if cur = [] then [] else [rev cur])"
| "splitlines_from cur [c] =
     (if is_linebreak c then [rev cur] else [rev (c # cur)])"
| "splitlines_from cur (c # d # cs) =
     (if c = CHR 0x0D \<and> d = CHR 0x0A then rev cur # splitlines_from [] cs
      else if is_linebreak c then rev cur # splitlines_from [] (d # cs)
      else splitlines_from (c # cur) (d # cs))"

definition splitlines :: "string \<Rightarrow> string list" where
  "splitlines s = splitlines_from [] s"

text \<open>\<^verbatim>\<open>line.split(":", 1)[-1]\<close>: what follows the first colon, and the whole line when
  it has no colon.\<close>

definition after_colon :: "string \<Rightarrow> string" where
  "after_colon line =
     (if CHR '':'' \<in> set line then tl (dropWhile (\<lambda>c. c \<noteq> CHR '':'') line) else line)"

text \<open>What the claims call a substring: \<open>sub\<close> occurs in \<open>s\<close> when \<open>s\<close> is some text,
  then \<open>sub\<close>, then some text. The program's test is \<open>contains\<close>; the two are shown
  equal below.\<close>

definition occurs_in :: "string \<Rightarrow> string \<Rightarrow> bool" where
  "occurs_in sub s = (\<exists>before after. s = before @ sub @ after)"

section \<open>The tables of the program\<close>

text \<open>\<^verbatim>\<open>CONDITIONS\<close>: the static rules of the last tier, in the order of the source.\<close>

record condition =
  "keywords" :: "string list"
  severity :: string
  advice :: string

definition CONDITIONS :: "condition list" where
  "CONDITIONS =
    [\<lparr>keywords = [''chest pain'', ''shortness of breath'', ''severe bleeding'',
                   ''unconscious'', ''stroke'', ''heart attack''],
      severity = ''Severe'',
      advice = ''Go to the ER immediately. Call emergency services (911 or your local number).''\<rparr>,
     \<lparr>keywords = [''high fever'', ''vomiting'', ''dehydration'', ''severe headache'',
                   ''confusion'', ''stiff neck'', ''difficulty breathing''],
      severity = ''Moderate'',
      advice = ''Consult a doctor within 24 hours. If symptoms worsen, seek emergency care.''\<rparr>,
     \<lparr>keywords = [''cough'', ''runny nose'', ''mild headache'', ''mild sore throat'',
                   ''back pain'', ''fatigue''],
      severity = ''Mild'',
      advice = ''Home care recommended. Rest, stay hydrated, and monitor symptoms.''\<rparr>]"

text \<open>\<^verbatim>\<open>SEVERITY_DISPLAY\<close> is a dictionary keyed by the three tiers; the program tests
  membership of its keys only (the colour, icon and description stored under each key are
  read by the page templates), so the keys are what is kept here.\<close>

definition SEVERITY_DISPLAY :: "string list" where
  "SEVERITY_DISPLAY = [''Mild'', ''Moderate'', ''Severe'']"

section \<open>The dataset\<close>

text \<open>
  A row of the frame read from \<^verbatim>\<open>symptoms_diseases.csv\<close>, with the three columns the
  program names, each cell a text (a frame with a missing value in a cell, or with
  a column that is not of texts, is the subject of a later section). The frame is a list of rows in file order; \<^verbatim>\<open>symptoms_df\<close> is
  \<open>None\<close> when the file does not exist.
\<close>

record dataset_row =
  symptom :: string
  disease :: string
  risk_level :: string

text \<open>\<^verbatim>\<open>load_dataset\<close>: the argument is the frame \<^verbatim>\<open>pd.read_csv\<close> returns, or
  \<open>None\<close> when \<^verbatim>\<open>os.path.exists(DATASET_FILE)\<close> is false. The three column
  assignments clean every cell; no cell is compared with anything.\<close>

definition load_dataset :: "dataset_row list option \<Rightarrow> dataset_row list option" where
  "load_dataset file =
     (case file of
        Some df \<Rightarrow>
          Some (map (\<lambda>row. \<lparr>symptom = strip (lower (symptom row)),
                            disease = strip (disease row),
                            risk_level = title (strip (risk_level row))\<rparr>) df)
      | None \<Rightarrow> None)"

definition preprocess :: "string \<Rightarrow> string" where
  "preprocess text = strip (lower text)"

text \<open>\<^verbatim>\<open>risk_priority.get(level, 0)\<close>\<close>

definition risk_priority :: "string \<Rightarrow> nat" where
  "risk_priority level =
     (case map_of [(''Severe'', 3), (''Moderate'', 2), (''Mild'', 1)] level of
        Some p \<Rightarrow> p
      | None \<Rightarrow> 0)"

text \<open>\<^verbatim>\<open>max(items, key=key)\<close> on a non-empty sequence, given as its first item and the
  rest: the running best is replaced only by an item with a strictly greater key, so among
  several greatest items the first one is returned.\<close>

fun max_by :: "('a \<Rightarrow> nat) \<Rightarrow> 'a \<Rightarrow> 'a list \<Rightarrow> 'a" where
  "max_by key best [] = best"
| "max_by key best (x # xs) = max_by key (if key best < key x then x else best) xs"

text \<open>The dictionary \<^verbatim>\<open>dataset_match\<close> returns.\<close>

record dataset_result =
  result_disease :: string
  result_severity :: string
  result_advice :: string

text \<open>\<^verbatim>\<open>dataset_match\<close>: the loop over \<^verbatim>\<open>iterrows()\<close> appends every row whose
  symptom occurs in the text, in frame order, which is \<open>filter\<close>.\<close>

definition dataset_match :: "dataset_row list option \<Rightarrow> string \<Rightarrow> dataset_result option" where
  "dataset_match symptoms_df symptoms_text =
     (case symptoms_df of
        None \<Rightarrow> None
      | Some df \<Rightarrow>
          (case filter (\<lambda>row. contains symptoms_text (symptom row)) df of
             [] \<Rightarrow> None
           | m # ms \<Rightarrow>
               (let best = max_by (\<lambda>row. risk_priority (risk_level row)) m ms
                in Some \<lparr>result_disease = disease best,
                         result_severity = risk_level best,
                         result_advice = ''Possible: '' @ disease best @
                           ''. Please consult a doctor for proper diagnosis.''\<rparr>)))"

section \<open>The rule tier\<close>

text \<open>\<^verbatim>\<open>rule_based_triage\<close>: the inner loop over the keywords of one rule, the outer loop
  over the rules, and the return after the loops.\<close>

fun scan_keywords :: "string list \<Rightarrow> string \<Rightarrow> bool" where
  "scan_keywords [] symptoms_text = False"
| "scan_keywords (kw # kws) symptoms_text =
     (if contains symptoms_text kw then True else scan_keywords kws symptoms_text)"

fun scan_conditions :: "condition list \<Rightarrow> string \<Rightarrow> (string \<times> string) option" where
  "scan_conditions [] symptoms_text = None"
| "scan_conditions (cond # conds) symptoms_text =
     (if scan_keywords (keywords cond) symptoms_text then Some (severity cond, advice cond)
      else scan_conditions conds symptoms_text)"

definition rule_based_triage :: "string \<Rightarrow> string \<times> string" where
  "rule_based_triage symptoms_text =
     (case scan_conditions CONDITIONS symptoms_text of
        Some r \<Rightarrow> r
      | None \<Rightarrow> (''Mild'', ''Home care recommended. Rest, stay hydrated, and monitor symptoms.''))"

section \<open>The reasoning tier\<close>

text \<open>
  A verdict is the tuple (severity, advice, disease) that \<^verbatim>\<open>llm_triage\<close> and
  \<^verbatim>\<open>triage_symptoms\<close> return.

  The remote service is a parameter: given the prompt, the body of the \<^verbatim>\<open>try\<close> up to
  the reading of \<^verbatim>\<open>completion.choices[0].message.content\<close> either raises an
  exception of class \<^verbatim>\<open>Exception\<close>, which the \<^verbatim>\<open>except\<close> clause catches
  (\<open>Inl\<close>), or gives the content (\<open>Inr\<close>). The line printed on a fault is not
  modelled. \<^verbatim>\<open>openai_client\<close> is \<open>None\<close> when no key is configured.
  The prompts sent are returned beside the result, so that a theorem can say that no call
  was made.
\<close>

type_synonym verdict = "string \<times> string \<times> string"

datatype fault = Fault string

type_synonym client = "string \<Rightarrow> fault + string"

definition build_prompt :: "string \<Rightarrow> string" where
  "build_prompt symptoms_text =
     ''You are a medical triage assistant. '' @
     ''A patient describes their symptoms. '' @
     ''Decide the urgency: Mild (home care, self-monitor), Moderate (see a doctor within 24h), Severe (go to ER now). '' @
     ''Give a short summary of severity and advice, and if possible, suggest a likely disease (optional).'' @
     [CHR 0x0A, CHR 0x0A] @
     ''Symptoms: '' @ symptoms_text @ [CHR 0x0A] @
     ''Respond in this exact format:'' @ [CHR 0x0A] @
     ''Severity: [Mild/Moderate/Severe]'' @ [CHR 0x0A] @
     ''Advice: [brief advice]'' @ [CHR 0x0A] @
     ''Disease: [optional, if highly likely]'' @ [CHR 0x0A]"

text \<open>The body of the loop over the lines of the response.\<close>

fun parse_line :: "verdict \<Rightarrow> string \<Rightarrow> verdict" where
  "parse_line (sev, adv, dis) line =
     (if startswith (lower line) ''severity:'' then
        (let val = title (strip (after_colon line))
         in if val \<in> set SEVERITY_DISPLAY then (val, adv, dis) else (sev, adv, dis))
      else if startswith (lower line) ''advice:'' then (sev, strip (after_colon line), dis)
      else if startswith (lower line) ''disease:'' then (sev, adv, strip (after_colon line))
      else (sev, adv, dis))"

text \<open>The parse of the content: strip, split into lines, run the loop from the defaults.\<close>

definition parse_response :: "string \<Rightarrow> verdict" where
  "parse_response content = foldl parse_line (''Mild'', '''', '''') (splitlines (strip content))"

definition llm_triage :: "client option \<Rightarrow> string \<Rightarrow> verdict option \<times> string list" where
  "llm_triage openai_client symptoms_text =
     (case openai_client of
        None \<Rightarrow> (None, [])
      | Some create \<Rightarrow>
          (let prompt = build_prompt symptoms_text
           in case create prompt of
                Inl e \<Rightarrow> (None, [prompt])
              | Inr content \<Rightarrow> (Some (parse_response content), [prompt])))"

text \<open>
  What the claims about the parser say of a line, in words that do not go through the
  functions of the parser. A line has the label \<open>name\<close> when it is a label, which is
  \<open>name\<close> in some letter case, then a colon, then a rest; the rest is the value after the
  first colon, since a label that lowers to one of the three names has no colon. A line
  names a tier when it has the label Severity and its rest, trimmed and title-cased, is one
  of the three tiers. \<open>join_lines\<close> puts a line feed between the lines of a list.
\<close>

definition has_label :: "string \<Rightarrow> string \<Rightarrow> bool" where
  "has_label name line = (\<exists>label rest. line = label @ CHR '':'' # rest \<and> lower label = name)"

definition names_tier :: "string \<Rightarrow> bool" where
  "names_tier line =
     (\<exists>label rest. line = label @ CHR '':'' # rest \<and> lower label = ''severity'' \<and>
        title (strip rest) \<in> set SEVERITY_DISPLAY)"

fun join_lines :: "string list \<Rightarrow> string" where
  "join_lines [] = []"
| "join_lines [l] = l"
| "join_lines (l # m # ls) = l @ CHR 0x0A # join_lines (m # ls)"

section \<open>The triage engine\<close>

text \<open>\<^verbatim>\<open>triage_symptoms\<close>, with the two globals it reads as arguments. A dictionary with
  three keys and a tuple of three items are both true in a condition, so each
  \<^verbatim>\<open>if\<close> tests for \<open>None\<close> only.\<close>

definition triage_symptoms ::
  "dataset_row list option \<Rightarrow> client option \<Rightarrow> string \<Rightarrow> verdict \<times> string list" where
  "triage_symptoms symptoms_df openai_client raw_text =
     (let symptoms_text = preprocess raw_text
      in case dataset_match symptoms_df symptoms_text of
           Some dataset_result \<Rightarrow>
             ((result_severity dataset_result, result_advice dataset_result,
               result_disease dataset_result), [])
         | None \<Rightarrow>
             (case llm_triage openai_client symptoms_text of
                (Some llm_result, sent) \<Rightarrow> (llm_result, sent)
              | (None, sent) \<Rightarrow>
                  (case rule_based_triage symptoms_text of
                     (sev, adv) \<Rightarrow> ((sev, adv, ''''), sent))))"

section \<open>The dataset as pandas holds it\<close>

text \<open>
  The exceptions of the program that the model names.
\<close>

datatype py_error =
    ReadError
  | KeyError
  | AttributeError
  | TypeError
  | JSONDecodeError
  | UnicodeEncodeError

text \<open>
  \<open>load_dataset\<close>, \<open>dataset_match\<close> and \<open>triage_symptoms\<close> above take every cell of
  the frame for a text. This section writes the three functions again for all that a frame
  read by \<^verbatim>\<open>pd.read_csv\<close> can be; on a frame of texts they agree with the ones above,
  as shown below. A cell of a text
  column is a text or the missing value (a float). A column the program names can be
  absent from the file, or have a dtype other than text (numbers, booleans, or no value at
  all), on which the \<^verbatim>\<open>.str\<close> accessor raises. The columns of a frame have one
  length. The file itself can be absent, or be one that \<^verbatim>\<open>pd.read_csv\<close> cannot
  read.
\<close>

datatype cell = Text string | NaN

datatype column = No_column | Other_dtype | Texts "cell list"

record csv_frame =
  symptom_column :: column
  disease_column :: column
  risk_level_column :: column

datatype dataset_file = No_dataset | Unreadable | Frame csv_frame

record frame_row =
  symptom_cell :: cell
  disease_cell :: cell
  risk_level_cell :: cell

text \<open>A \<^verbatim>\<open>.str\<close> method leaves a missing value as it is.\<close>

fun map_cell :: "(string \<Rightarrow> string) \<Rightarrow> cell \<Rightarrow> cell" where
  "map_cell f (Text s) = Text (f s)"
| "map_cell f NaN = NaN"

text \<open>\<^verbatim>\<open>df[name].str.f()\<close>: \<^verbatim>\<open>df[name]\<close> raises on an absent column and
  \<^verbatim>\<open>.str\<close> on a column that is not of texts.\<close>

fun str_column :: "(string \<Rightarrow> string) \<Rightarrow> column \<Rightarrow> py_error + cell list" where
  "str_column f No_column = Inl KeyError"
| "str_column f Other_dtype = Inl AttributeError"
| "str_column f (Texts cells) = Inr (map (map_cell f) cells)"

text \<open>\<^verbatim>\<open>load_dataset\<close> on such a file: the three assignments in the order of the
  source, each of which can raise, and the rows of the cleaned frame.\<close>

definition load_dataset_frame :: "dataset_file \<Rightarrow> py_error + frame_row list option" where
  "load_dataset_frame file =
     (case file of
        No_dataset \<Rightarrow> Inr None
      | Unreadable \<Rightarrow> Inl ReadError
      | Frame df \<Rightarrow>
          (case str_column (\<lambda>s. strip (lower s)) (symptom_column df) of
             Inl e \<Rightarrow> Inl e
           | Inr symptoms \<Rightarrow>
               (case str_column strip (disease_column df) of
                  Inl e \<Rightarrow> Inl e
                | Inr diseases \<Rightarrow>
                    (case str_column (\<lambda>s. title (strip s)) (risk_level_column df) of
                       Inl e \<Rightarrow> Inl e
                     | Inr risk_levels \<Rightarrow>
                         Inr (Some (map (\<lambda>(s, d, r). \<lparr>symptom_cell = s, disease_cell = d,
                                                    risk_level_cell = r\<rparr>)
                                     (zip symptoms (zip diseases risk_levels))))))))"

text \<open>The loop of \<^verbatim>\<open>dataset_match\<close> over such rows: \<^verbatim>\<open>row["symptom"] in symptoms_text\<close>
  raises \<^verbatim>\<open>TypeError\<close> when the cell is the missing value, and the loop goes through
  every row.\<close>

fun collect_matches :: "frame_row list \<Rightarrow> string \<Rightarrow> py_error + frame_row list" where
  "collect_matches [] symptoms_text = Inr []"
| "collect_matches (row # rows) symptoms_text =
     (case symptom_cell row of
        NaN \<Rightarrow> Inl TypeError
      | Text phrase \<Rightarrow>
          (case collect_matches rows symptoms_text of
             Inl e \<Rightarrow> Inl e
           | Inr matches \<Rightarrow>
               Inr (if contains symptoms_text phrase then row # matches else matches)))"

text \<open>\<^verbatim>\<open>risk_priority.get(row["risk_level"], 0)\<close>: the missing value is no key of the
  dictionary.\<close>

fun risk_priority_cell :: "cell \<Rightarrow> nat" where
  "risk_priority_cell (Text level) = risk_priority level"
| "risk_priority_cell NaN = 0"

text \<open>How the formatted string writes a cell.\<close>

fun str_cell :: "cell \<Rightarrow> string" where
  "str_cell (Text s) = s"
| "str_cell NaN = ''nan''"

record frame_result =
  found_disease :: cell
  found_severity :: cell
  found_advice :: string

definition dataset_match_frame ::
  "frame_row list option \<Rightarrow> string \<Rightarrow> py_error + frame_result option" where
  "dataset_match_frame symptoms_df symptoms_text =
     (case symptoms_df of
        None \<Rightarrow> Inr None
      | Some df \<Rightarrow>
          (case collect_matches df symptoms_text of
             Inl e \<Rightarrow> Inl e
           | Inr [] \<Rightarrow> Inr None
           | Inr (m # ms) \<Rightarrow>
               (let best = max_by (\<lambda>row. risk_priority_cell (risk_level_cell row)) m ms
                in Inr (Some \<lparr>found_disease = disease_cell best,
                              found_severity = risk_level_cell best,
                              found_advice = ''Possible: '' @ str_cell (disease_cell best) @
                                ''. Please consult a doctor for proper diagnosis.''\<rparr>))))"

text \<open>\<^verbatim>\<open>triage_symptoms\<close> over such an index: an exception of the dataset matcher is
  not caught, so it is the outcome of the call.\<close>

definition triage_symptoms_frame ::
  "frame_row list option \<Rightarrow> client option \<Rightarrow> string \<Rightarrow>
     py_error + (cell \<times> string \<times> cell) \<times> string list" where
  "triage_symptoms_frame symptoms_df openai_client raw_text =
     (let symptoms_text = preprocess raw_text
      in case dataset_match_frame symptoms_df symptoms_text of
           Inl e \<Rightarrow> Inl e
         | Inr (Some dataset_result) \<Rightarrow>
             Inr ((found_severity dataset_result, found_advice dataset_result,
                   found_disease dataset_result), [])
         | Inr None \<Rightarrow>
             (case llm_triage openai_client symptoms_text of
                (Some (sev, adv, dis), sent) \<Rightarrow> Inr ((Text sev, adv, Text dis), sent)
              | (None, sent) \<Rightarrow>
                  (case rule_based_triage symptoms_text of
                     (sev, adv) \<Rightarrow> Inr ((Text sev, adv, Text ''''), sent))))"

text \<open>A frame of texts as such a frame, row by row and as a file.\<close>

definition text_row :: "dataset_row \<Rightarrow> frame_row" where
  "text_row row = \<lparr>symptom_cell = Text (symptom row), disease_cell = Text (disease row),
                   risk_level_cell = Text (risk_level row)\<rparr>"

definition text_frame :: "dataset_row list \<Rightarrow> csv_frame" where
  "text_frame rows = \<lparr>symptom_column = Texts (map (\<lambda>row. Text (symptom row)) rows),
                      disease_column = Texts (map (\<lambda>row. Text (disease row)) rows),
                      risk_level_column = Texts (map (\<lambda>row. Text (risk_level row)) rows)\<rparr>"


section \<open>The history store\<close>

text \<open>
  The state is the history file: absent, holding the JSON text of a list of entries, or
  holding a text that is not JSON, which is what a write that fails part-way leaves. (A
  file that holds JSON other than a list is not modelled: the program writes lists only.)

  An entry is kept abstract. \<open>writable\<close> says of an entry that \<^verbatim>\<open>json.dump\<close> can write
  it to the file, which is opened with the UTF-8 encoding and written with
  \<^verbatim>\<open>ensure_ascii=False\<close>: a text with a lone surrogate cannot be encoded.

  \<^verbatim>\<open>save_history\<close> returns the exception raised, if any, and the new state of the
  file. \<^verbatim>\<open>json.load\<close> raises on a file that is not JSON, before the file is opened for
  writing. Otherwise \<^verbatim>\<open>open(HISTORY_FILE, "w")\<close> empties the file, and
  \<^verbatim>\<open>json.dump\<close> writes the list piece by piece: when a piece cannot be encoded the
  exception leaves the block, which closes the file with the pieces written so far, an
  opening bracket with no closing one.
\<close>

datatype 'e history_file = No_file | Holds "'e list" | Damaged

definition save_history ::
  "('e \<Rightarrow> bool) \<Rightarrow> 'e \<Rightarrow> 'e history_file \<Rightarrow> py_error option \<times> 'e history_file" where
  "save_history writable entry file =
     (case file of
        Damaged \<Rightarrow> (Some JSONDecodeError, Damaged)
      | No_file \<Rightarrow>
          (if writable entry then (None, Holds [entry]) else (Some UnicodeEncodeError, Damaged))
      | Holds stored \<Rightarrow>
          (let history = stored @ [entry]
           in if list_all writable history then (None, Holds history)
              else (Some UnicodeEncodeError, Damaged)))"

definition load_history :: "'e history_file \<Rightarrow> py_error + 'e list" where
  "load_history file =
     (case file of
        No_file \<Rightarrow> Inr []
      | Holds stored \<Rightarrow> Inr stored
      | Damaged \<Rightarrow> Inl JSONDecodeError)"

text \<open>An entry as the two routes build it: the text of the request and the verdict. The
  text of a request is a text of the model or one with a lone surrogate (a JSON body can
  carry one, as an escape).\<close>

datatype request_text = Plain string | Lone_surrogate

datatype history_entry = Entry request_text verdict

fun writable_entry :: "history_entry \<Rightarrow> bool" where
  "writable_entry (Entry (Plain text) v) = True"
| "writable_entry (Entry Lone_surrogate v) = False"

section \<open>Example inputs\<close>

text \<open>A dataset index of three rows, as \<^verbatim>\<open>load_dataset\<close> leaves them.\<close>

definition example_frame :: "dataset_row list" where
  "example_frame =
    [\<lparr>symptom = ''fever'', disease = ''Flu'', risk_level = ''Moderate''\<rparr>,
     \<lparr>symptom = ''chest pain'', disease = ''Angina'', risk_level = ''Severe''\<rparr>,
     \<lparr>symptom = ''cough'', disease = ''Common cold'', risk_level = ''Mild''\<rparr>]"

text \<open>A file whose only row has a risk level outside the three tiers.\<close>

definition critical_file :: "dataset_row list" where
  "critical_file = [\<lparr>symptom = ''Fever'', disease = ''Sepsis '', risk_level = '' critical ''\<rparr>]"


text \<open>A service that answers every prompt with an empty content, and one that fails on
  every prompt.\<close>

definition empty_reply :: client where
  "empty_reply prompt = Inr ''''"

definition failing_client :: client where
  "failing_client prompt = Inl (Fault ''timed out'')"

text \<open>A file with an empty cell in the symptom column, which \<^verbatim>\<open>pd.read_csv\<close> reads
  as the missing value.\<close>

definition gap_frame :: csv_frame where
  "gap_frame =
    \<lparr>symptom_column = Texts [Text ''Fever'', NaN],
     disease_column = Texts [Text ''Flu'', Text ''Cold''],
     risk_level_column = Texts [Text ''moderate'', Text ''mild'']\<rparr>"



text \<open>A response of the service with each label on two lines, the line boundaries being
  a line feed, a carriage return with a line feed, and the next-line control.\<close>

definition repeated_labels :: string where
  "repeated_labels =
     ''Advice: first'' @ [CHR 0x0A] @ ''Severity: severe'' @ [CHR 0x0D, CHR 0x0A] @
     ''advice:  second: b '' @ [CHR 0x85] @ ''SEVERITY: unknown'' @ [CHR 0x0A] @
     ''Disease: flu'' @ [CHR 0x0A] @ ''DISEASE: cold '' @ [CHR 0xA0]"

section \<open>Facts about the text operations\<close>

lemma startswith_iff: "startswith s p \<longleftrightarrow> (\<exists>r. s = p @ r)"
  by (induction s p rule: startswith.induct) auto

lemma occurs_in_Cons:
  "occurs_in sub (c # cs) \<longleftrightarrow> (\<exists>r. c # cs = sub @ r) \<or> occurs_in sub cs"
proof
  assume "occurs_in sub (c # cs)"
  then obtain b a where eq: "c # cs = b @ sub @ a"
    by (auto simp: occurs_in_def)
  show "(\<exists>r. c # cs = sub @ r) \<or> occurs_in sub cs"
  proof (cases b)
    case Nil
    with eq show ?thesis by auto
  next
    case (Cons b0 bs)
    with eq have "cs = bs @ sub @ a" by simp
    then show ?thesis by (auto simp: occurs_in_def)
  qed
next
  assume "(\<exists>r. c # cs = sub @ r) \<or> occurs_in sub cs"
  then show "occurs_in sub (c # cs)"
  proof
    assume "\<exists>r. c # cs = sub @ r"
    then obtain r where "c # cs = [] @ sub @ r" by auto
    then show ?thesis unfolding occurs_in_def by blast
  next
    assume "occurs_in sub cs"
    then obtain b a where "cs = b @ sub @ a"
      by (auto simp: occurs_in_def)
    then have "c # cs = (c # b) @ sub @ a" by simp
    then show ?thesis unfolding occurs_in_def by blast
  qed
qed

lemma contains_occurs_in: "contains s sub \<longleftrightarrow> occurs_in sub s"
proof (induction s)
  case Nil
  show ?case by (auto simp: occurs_in_def)
next
  case (Cons c cs)
  then show ?case by (simp add: startswith_iff occurs_in_Cons)
qed


section \<open>The rule tier\<close>

lemma scan_keywords_iff:
  "scan_keywords kws t \<longleftrightarrow> (\<exists>kw \<in> set kws. occurs_in kw t)"
  by (induction kws) (auto simp: contains_occurs_in)

lemma scan_conditions_find:
  "scan_conditions conds t =
     map_option (\<lambda>c. (severity c, advice c))
       (find (\<lambda>c. \<exists>kw \<in> set (keywords c). occurs_in kw t) conds)"
  by (induction conds) (auto simp: scan_keywords_iff)

text \<open>
  C7. The rule matcher returns the severity and advice of the first rule of the catalog,
  in listed order, one of whose keywords occurs in the text as a substring, and the fixed
  default (Mild with the home-care advice) when no rule has such a keyword; on the empty
  text it returns the default. With no dataset and no reasoning client, triage of
  "I have chest pain" is Severe and triage of "just a mild headache" is Mild.
\<close>

theorem rule_based_triage_first_rule:
  "rule_based_triage t =
     (case find (\<lambda>c. \<exists>kw \<in> set (keywords c). occurs_in kw t) CONDITIONS of
        Some c \<Rightarrow> (severity c, advice c)
      | None \<Rightarrow> (''Mild'', ''Home care recommended. Rest, stay hydrated, and monitor symptoms.''))
   \<and> rule_based_triage '''' =
     (''Mild'', ''Home care recommended. Rest, stay hydrated, and monitor symptoms.'')
   \<and> fst (triage_symptoms None None ''I have chest pain'') =
     (''Severe'',
      ''Go to the ER immediately. Call emergency services (911 or your local number).'', '''')
   \<and> fst (triage_symptoms None None ''just a mild headache'') =
     (''Mild'', ''Home care recommended. Rest, stay hydrated, and monitor symptoms.'', '''')"
proof -
  have first_rule: "rule_based_triage t =
     (case find (\<lambda>c. \<exists>kw \<in> set (keywords c). occurs_in kw t) CONDITIONS of
        Some c \<Rightarrow> (severity c, advice c)
      | None \<Rightarrow> (''Mild'', ''Home care recommended. Rest, stay hydrated, and monitor symptoms.''))"
    unfolding rule_based_triage_def scan_conditions_find
    by (simp split: option.splits)
  have on_empty: "rule_based_triage '''' =
     (''Mild'', ''Home care recommended. Rest, stay hydrated, and monitor symptoms.'')"
    by code_simp
  have chest_pain: "fst (triage_symptoms None None ''I have chest pain'') =
     (''Severe'',
      ''Go to the ER immediately. Call emergency services (911 or your local number).'', '''')"
    by code_simp
  have mild_headache: "fst (triage_symptoms None None ''just a mild headache'') =
     (''Mild'', ''Home care recommended. Rest, stay hydrated, and monitor symptoms.'', '''')"
    by code_simp
  from first_rule on_empty chest_pain mild_headache show ?thesis
    by (intro conjI)
qed

section \<open>The history store\<close>

lemma save_history_writable:
  assumes "load_history store = Inr stored" "list_all writable (stored @ [entry])"
  shows "save_history writable entry store = (None, Holds (stored @ [entry]))"
  using assms by (cases store) (auto simp: save_history_def load_history_def Let_def)

text \<open>As long as every entry can be written, the history read back is the history that
  was there followed by the entries saved, in order.\<close>

lemma history_kept_when_writable:
  assumes "load_history store = Inr stored" "list_all writable (stored @ entries)"
  shows "load_history (foldl (\<lambda>f entry. snd (save_history writable entry f)) store entries) =
     Inr (stored @ entries)"
  using assms
proof (induction entries arbitrary: store stored)
  case Nil
  then show ?case by simp
next
  case (Cons entry entries)
  have w: "list_all writable (stored @ [entry])" using Cons.prems(2) by simp
  have step: "save_history writable entry store = (None, Holds (stored @ [entry]))"
    by (rule save_history_writable [OF Cons.prems(1) w])
  have "load_history (Holds (stored @ [entry])) = Inr (stored @ [entry])"
    by (simp add: load_history_def)
  moreover have "list_all writable ((stored @ [entry]) @ entries)"
    using Cons.prems(2) by simp
  ultimately have "load_history
      (foldl (\<lambda>f entry. snd (save_history writable entry f)) (Holds (stored @ [entry])) entries) =
     Inr ((stored @ [entry]) @ entries)"
    by (rule Cons.IH)
  then show ?case by (simp add: step)
qed

text \<open>
  C8 fails on the code. With a history file that holds one entry, saving an entry whose
  request text has a lone surrogate raises \<^verbatim>\<open>UnicodeEncodeError\<close> after the file has
  been emptied, and leaves a file that is not JSON: the next \<^verbatim>\<open>load_history\<close> raises
  \<^verbatim>\<open>JSONDecodeError\<close>, and so does every later \<^verbatim>\<open>save_history\<close>. The entry that
  was there is not read back.
\<close>

theorem save_history_loses_history:
  "load_history (Holds [Entry (Plain ''cough'')
       (''Mild'', ''Home care recommended. Rest, stay hydrated, and monitor symptoms.'', '''')]) =
     Inr [Entry (Plain ''cough'')
       (''Mild'', ''Home care recommended. Rest, stay hydrated, and monitor symptoms.'', '''')]
   \<and> save_history writable_entry
       (Entry Lone_surrogate
         (''Mild'', ''Home care recommended. Rest, stay hydrated, and monitor symptoms.'', ''''))
       (Holds [Entry (Plain ''cough'')
         (''Mild'', ''Home care recommended. Rest, stay hydrated, and monitor symptoms.'', '''')]) =
     (Some UnicodeEncodeError, Damaged)
   \<and> load_history (Damaged :: history_entry history_file) = Inl JSONDecodeError
   \<and> save_history writable_entry
       (Entry (Plain ''fever'')
         (''Mild'', ''Home care recommended. Rest, stay hydrated, and monitor symptoms.'', ''''))
       Damaged =
     (Some JSONDecodeError, Damaged)"
  by (simp add: save_history_def load_history_def Let_def)

section \<open>The dataset tier\<close>

lemma max_by_split:
  "(max_by key best xs = best \<and> (\<forall>x \<in> set xs. key x \<le> key best)) \<or>
   (\<exists>pre post. xs = pre @ max_by key best xs # post \<and> key best < key (max_by key best xs) \<and>
      (\<forall>x \<in> set pre. key x < key (max_by key best xs)) \<and>
      (\<forall>x \<in> set post. key x \<le> key (max_by key best xs)))"
proof (induction xs arbitrary: best)
  case Nil
  show ?case by simp
next
  case (Cons x xs)
  show ?case
  proof (cases "key best < key x")
    case True
    let ?b = "max_by key x xs"
    have eq: "max_by key best (x # xs) = ?b" using True by simp
    from Cons.IH [of x] show ?thesis
    proof
      assume h: "?b = x \<and> (\<forall>y \<in> set xs. key y \<le> key x)"
      then have "x # xs = [] @ ?b # xs" by simp
      moreover have "key best < key ?b" using h True by simp
      moreover have "\<forall>y \<in> set xs. key y \<le> key ?b" using h by simp
      ultimately show ?thesis unfolding eq by (metis empty_iff list.set(1))
    next
      assume "\<exists>pre post. xs = pre @ ?b # post \<and> key x < key ?b \<and>
        (\<forall>y \<in> set pre. key y < key ?b) \<and> (\<forall>y \<in> set post. key y \<le> key ?b)"
      then obtain pre post where h: "xs = pre @ ?b # post" "key x < key ?b"
        "\<forall>y \<in> set pre. key y < key ?b" "\<forall>y \<in> set post. key y \<le> key ?b" by blast
      have "x # xs = (x # pre) @ ?b # post" using h(1) by simp
      moreover have "key best < key ?b" using h(2) True by simp
      moreover have "\<forall>y \<in> set (x # pre). key y < key ?b" using h(2,3) by simp
      ultimately show ?thesis unfolding eq using h(4) by blast
    qed
  next
    case False
    let ?b = "max_by key best xs"
    have eq: "max_by key best (x # xs) = ?b" using False by simp
    from Cons.IH [of best] show ?thesis
    proof
      assume h: "?b = best \<and> (\<forall>y \<in> set xs. key y \<le> key best)"
      then show ?thesis unfolding eq using False by auto
    next
      assume "\<exists>pre post. xs = pre @ ?b # post \<and> key best < key ?b \<and>
        (\<forall>y \<in> set pre. key y < key ?b) \<and> (\<forall>y \<in> set post. key y \<le> key ?b)"
      then obtain pre post where h: "xs = pre @ ?b # post" "key best < key ?b"
        "\<forall>y \<in> set pre. key y < key ?b" "\<forall>y \<in> set post. key y \<le> key ?b" by blast
      have "x # xs = (x # pre) @ ?b # post" using h(1) by simp
      moreover have "\<forall>y \<in> set (x # pre). key y < key ?b" using h(2,3) False by auto
      ultimately show ?thesis unfolding eq using h(2,4) by blast
    qed
  qed
qed

lemma max_by_first_greatest:
  "\<exists>pre post. m # ms = pre @ max_by key m ms # post \<and>
      (\<forall>x \<in> set pre. key x < key (max_by key m ms)) \<and>
      (\<forall>x \<in> set post. key x \<le> key (max_by key m ms))"
proof -
  let ?b = "max_by key m ms"
  from max_by_split [of key m ms] show ?thesis
  proof
    assume h: "?b = m \<and> (\<forall>x \<in> set ms. key x \<le> key m)"
    then have "m # ms = [] @ ?b # ms" by simp
    moreover have "\<forall>x \<in> set ms. key x \<le> key ?b" using h by simp
    ultimately show ?thesis by (metis empty_iff list.set(1))
  next
    assume "\<exists>pre post. ms = pre @ ?b # post \<and> key m < key ?b \<and>
        (\<forall>y \<in> set pre. key y < key ?b) \<and> (\<forall>y \<in> set post. key y \<le> key ?b)"
    then obtain pre post where h: "ms = pre @ ?b # post" "key m < key ?b"
        "\<forall>y \<in> set pre. key y < key ?b" "\<forall>y \<in> set post. key y \<le> key ?b" by blast
    have "m # ms = (m # pre) @ ?b # post" using h(1) by simp
    moreover have "\<forall>y \<in> set (m # pre). key y < key ?b" using h(2,3) by simp
    ultimately show ?thesis using h(4) by blast
  qed
qed




text \<open>The rows the loop of \<open>dataset_match\<close> collects, said with the substring relation.\<close>

lemma matches_occurs_in:
  "filter (\<lambda>row. contains t (symptom row)) df = filter (\<lambda>row. occurs_in (symptom row) t) df"
  by (simp add: contains_occurs_in)

text \<open>What \<open>dataset_match\<close> returns, in terms of the candidates: nothing when there is
  none, and otherwise the result built from a candidate that splits the candidates into
  earlier ones of strictly lower priority and later ones of at most its priority.\<close>

lemma dataset_match_no_candidate:
  "filter (\<lambda>row. occurs_in (symptom row) t) df = [] \<Longrightarrow> dataset_match (Some df) t = None"
  by (simp add: dataset_match_def matches_occurs_in)

lemma dataset_match_best:
  assumes "filter (\<lambda>row. occurs_in (symptom row) t) df \<noteq> []"
  shows "\<exists>pre best post.
      filter (\<lambda>row. occurs_in (symptom row) t) df = pre @ best # post \<and>
      (\<forall>row \<in> set pre. risk_priority (risk_level row) < risk_priority (risk_level best)) \<and>
      (\<forall>row \<in> set post. risk_priority (risk_level row) \<le> risk_priority (risk_level best)) \<and>
      dataset_match (Some df) t =
        Some \<lparr>result_disease = disease best, result_severity = risk_level best,
              result_advice = ''Possible: '' @ disease best @
                ''. Please consult a doctor for proper diagnosis.''\<rparr>"
proof -
  from assms obtain m ms where cands: "filter (\<lambda>row. occurs_in (symptom row) t) df = m # ms"
    by (cases "filter (\<lambda>row. occurs_in (symptom row) t) df") auto
  let ?key = "\<lambda>row. risk_priority (risk_level row)"
  let ?best = "max_by ?key m ms"
  from max_by_first_greatest [of m ms ?key]
  obtain pre post where split: "m # ms = pre @ ?best # post"
    "\<forall>row \<in> set pre. ?key row < ?key ?best" "\<forall>row \<in> set post. ?key row \<le> ?key ?best"
    by blast
  have "dataset_match (Some df) t =
        Some \<lparr>result_disease = disease ?best, result_severity = risk_level ?best,
              result_advice = ''Possible: '' @ disease ?best @
                ''. Please consult a doctor for proper diagnosis.''\<rparr>"
    by (simp add: dataset_match_def matches_occurs_in cands Let_def)
  with split cands show ?thesis by metis
qed

lemma dataset_match_template:
  "dataset_match df t = Some r \<Longrightarrow>
     result_advice r =
       ''Possible: '' @ result_disease r @ ''. Please consult a doctor for proper diagnosis.''"
  by (auto simp: dataset_match_def Let_def split: option.splits list.splits)



section \<open>The parser of the reasoning tier\<close>

lemma label_exclusive:
  "startswith x ''severity:'' \<Longrightarrow> \<not> startswith x ''advice:''"
  "startswith x ''severity:'' \<Longrightarrow> \<not> startswith x ''disease:''"
  "startswith x ''advice:'' \<Longrightarrow> \<not> startswith x ''disease:''"
  by (cases x; simp)+

text \<open>The loop over the lines, from any starting values: each field is decided by the
  last line that sets it.\<close>

lemma foldl_parse_line:
  "foldl parse_line (sev, adv, dis) lines =
    (case find (\<lambda>l. startswith (lower l) ''severity:'' \<and>
                     title (strip (after_colon l)) \<in> set SEVERITY_DISPLAY) (rev lines) of
       None \<Rightarrow> sev
     | Some l \<Rightarrow> title (strip (after_colon l)),
     case find (\<lambda>l. startswith (lower l) ''advice:'') (rev lines) of
       None \<Rightarrow> adv
     | Some l \<Rightarrow> strip (after_colon l),
     case find (\<lambda>l. startswith (lower l) ''disease:'') (rev lines) of
       None \<Rightarrow> dis
     | Some l \<Rightarrow> strip (after_colon l))"
proof (induction lines rule: rev_induct)
  case Nil
  show ?case by simp
next
  case (snoc l ls)
  show ?case
  proof (cases "startswith (lower l) ''severity:''")
    case sev: True
    then show ?thesis
      using label_exclusive(1,2) [of "lower l"]
      by (simp add: snoc Let_def del: startswith.simps)
  next
    case nosev: False
    show ?thesis
    proof (cases "startswith (lower l) ''advice:''")
      case True
      then show ?thesis
        using nosev label_exclusive(3) [of "lower l"]
        by (simp add: snoc Let_def del: startswith.simps)
    next
      case False
      then show ?thesis
        using nosev by (simp add: snoc Let_def del: startswith.simps)
    qed
  qed
qed

lemma lower_char_colon_table:
  "list_all (\<lambda>c. (lower_char c = CHR '':'') = (c = CHR '':'')) Enum.enum"
  by code_simp

lemma lower_char_colon: "lower_char c = CHR '':'' \<longleftrightarrow> c = CHR '':''"
  using lower_char_colon_table by (simp add: list_all_iff enum_UNIV)

lemma lower_colon_free: "CHR '':'' \<in> set (lower s) \<longleftrightarrow> CHR '':'' \<in> set s"
proof (induction s)
  case Nil
  show ?case by (simp add: lower_def)
next
  case (Cons c cs)
  have "lower (c # cs) = lower_char c # lower cs" by (simp add: lower_def)
  with Cons lower_char_colon [of c] show ?case by auto
qed

lemma after_colon_label:
  "CHR '':'' \<notin> set label \<Longrightarrow> after_colon (label @ CHR '':'' # rest) = rest"
  by (induction label) (auto simp: after_colon_def)

lemma lower_append: "lower (a @ b) = lower a @ lower b"
  by (simp add: lower_def)

lemma lower_colon: "lower (CHR '':'' # rest) = CHR '':'' # lower rest"
  by (simp add: lower_def lower_char_colon)

text \<open>A line made of a label in any letter case, a colon and a rest is recognised by
  the lowered label, and the rest is what \<open>after_colon\<close> returns.\<close>

lemma label_line:
  assumes "lower label = name"  "CHR '':'' \<notin> set name"
  shows "startswith (lower (label @ CHR '':'' # rest)) (name @ '':'')"
    and "after_colon (label @ CHR '':'' # rest) = rest"
proof -
  have "lower (label @ CHR '':'' # rest) = (name @ '':'') @ lower rest"
    using assms by (simp add: lower_append lower_colon)
  then show "startswith (lower (label @ CHR '':'' # rest)) (name @ '':'')"
    by (simp only: startswith_iff) blast
  have "CHR '':'' \<notin> set (lower label)" using assms by simp
  then have "CHR '':'' \<notin> set label" by (simp add: lower_colon_free)
  then show "after_colon (label @ CHR '':'' # rest) = rest" by (rule after_colon_label)
qed

lemma parse_line_severity:
  assumes "lower label = ''severity''"
  shows "parse_line (sev, adv, dis) (label @ '':'' @ rest) =
     (if title (strip rest) \<in> set SEVERITY_DISPLAY then title (strip rest) else sev, adv, dis)"
proof -
  have "startswith (lower (label @ CHR '':'' # rest)) ''severity:''"
    and "after_colon (label @ CHR '':'' # rest) = rest"
    using label_line [OF assms, of rest] by simp_all
  then show ?thesis
    by (simp add: Let_def del: startswith.simps)
qed

lemma parse_line_advice:
  assumes "lower label = ''advice''"
  shows "parse_line (sev, adv, dis) (label @ '':'' @ rest) = (sev, strip rest, dis)"
proof -
  have "startswith (lower (label @ CHR '':'' # rest)) ''advice:''"
    and "after_colon (label @ CHR '':'' # rest) = rest"
    using label_line [OF assms, of rest] by simp_all
  then show ?thesis
    using label_exclusive(1) [of "lower (label @ CHR '':'' # rest)"]
    by (auto simp add: Let_def simp del: startswith.simps)
qed

lemma parse_line_disease:
  assumes "lower label = ''disease''"
  shows "parse_line (sev, adv, dis) (label @ '':'' @ rest) = (sev, adv, strip rest)"
proof -
  have "startswith (lower (label @ CHR '':'' # rest)) ''disease:''"
    and "after_colon (label @ CHR '':'' # rest) = rest"
    using label_line [OF assms, of rest] by simp_all
  then show ?thesis
    using label_exclusive(2,3) [of "lower (label @ CHR '':'' # rest)"]
    by (auto simp add: Let_def simp del: startswith.simps)
qed

lemma parse_line_other:
  assumes "\<not> startswith (lower line) ''severity:''" "\<not> startswith (lower line) ''advice:''"
    "\<not> startswith (lower line) ''disease:''"
  shows "parse_line (sev, adv, dis) line = (sev, adv, dis)"
  using assms by (simp del: startswith.simps)

lemma parse_response_severity_default:
  assumes "\<not> list_ex (\<lambda>l. startswith (lower l) ''severity:'' \<and>
             title (strip (after_colon l)) \<in> set SEVERITY_DISPLAY) (splitlines (strip content))"
  shows "fst (parse_response content) = ''Mild''"
proof -
  from assms have "find (\<lambda>l. startswith (lower l) ''severity:'' \<and>
             title (strip (after_colon l)) \<in> set SEVERITY_DISPLAY)
             (rev (splitlines (strip content))) = None"
    by (simp add: find_None_iff list_ex_iff del: startswith.simps)
  then show ?thesis
    by (simp add: parse_response_def foldl_parse_line del: startswith.simps)
qed

text \<open>The two ways of saying that a line has a label agree, and so do the two ways of
  saying that it names a tier.\<close>

lemma has_label_startswith:
  assumes "CHR '':'' \<notin> set name"
  shows "has_label name line \<longleftrightarrow> startswith (lower line) (name @ '':'')"
proof
  assume "has_label name line"
  then obtain label rest where "line = label @ CHR '':'' # rest" "lower label = name"
    by (auto simp: has_label_def)
  then show "startswith (lower line) (name @ '':'')"
    using label_line(1) [OF _ assms] by simp
next
  assume "startswith (lower line) (name @ '':'')"
  then obtain r where "lower line = (name @ '':'') @ r"
    by (auto simp: startswith_iff)
  then have "map lower_char line = name @ CHR '':'' # r" by (simp add: lower_def)
  then obtain label tail where l: "line = label @ tail" "map lower_char label = name"
    "map lower_char tail = CHR '':'' # r"
    by (auto simp: map_eq_append_conv)
  from l(3) obtain c rest where t: "tail = c # rest" "lower_char c = CHR '':''"
    by (auto simp: map_eq_Cons_conv)
  then have "c = CHR '':''" by (simp add: lower_char_colon)
  with l t have "line = label @ CHR '':'' # rest \<and> lower label = name"
    by (simp add: lower_def)
  then show "has_label name line" unfolding has_label_def by blast
qed

lemma has_label_names:
  "has_label ''severity'' l \<longleftrightarrow> startswith (lower l) ''severity:''"
  "has_label ''advice'' l \<longleftrightarrow> startswith (lower l) ''advice:''"
  "has_label ''disease'' l \<longleftrightarrow> startswith (lower l) ''disease:''"
  using has_label_startswith [of "''severity''" l] has_label_startswith [of "''advice''" l]
    has_label_startswith [of "''disease''" l]
  by simp_all

lemma names_tier_iff:
  "names_tier line \<longleftrightarrow>
     startswith (lower line) ''severity:'' \<and>
     title (strip (after_colon line)) \<in> set SEVERITY_DISPLAY"
proof
  assume "names_tier line"
  then obtain label rest where l: "line = label @ CHR '':'' # rest" "lower label = ''severity''"
    "title (strip rest) \<in> set SEVERITY_DISPLAY"
    by (auto simp: names_tier_def)
  have "startswith (lower (label @ CHR '':'' # rest)) ''severity:''"
    and "after_colon (label @ CHR '':'' # rest) = rest"
    using label_line [OF l(2), of rest] by simp_all
  with l show "startswith (lower line) ''severity:'' \<and>
     title (strip (after_colon line)) \<in> set SEVERITY_DISPLAY"
    by simp
next
  assume h: "startswith (lower line) ''severity:'' \<and>
     title (strip (after_colon line)) \<in> set SEVERITY_DISPLAY"
  then have "has_label ''severity'' line"
    using has_label_startswith [of "''severity''" line] by simp
  then obtain label rest where l: "line = label @ CHR '':'' # rest" "lower label = ''severity''"
    by (auto simp: has_label_def)
  have "after_colon (label @ CHR '':'' # rest) = rest"
    using label_line(2) [OF l(2), of rest] by simp
  with h l have "title (strip rest) \<in> set SEVERITY_DISPLAY" by simp
  with l show "names_tier line" unfolding names_tier_def by blast
qed

lemma find_skip: "\<forall>x \<in> set xs. \<not> P x \<Longrightarrow> find P (xs @ ys) = find P ys"
  by (induction xs) simp_all

lemma find_last_match:
  assumes "ls = pre @ l # post" "P l" "\<forall>x \<in> set post. \<not> P x"
  shows "find P (rev ls) = Some l"
proof -
  have "rev ls = rev post @ l # rev pre" using assms(1) by simp
  moreover have "\<forall>x \<in> set (rev post). \<not> P x" using assms(3) by simp
  ultimately show ?thesis using assms(2) by (simp add: find_skip)
qed

lemma find_no_match: "\<forall>x \<in> set ls. \<not> P x \<Longrightarrow> find P (rev ls) = None"
  by (simp add: find_None_iff)

text \<open>The fields of the parsed response, from the last line of each label.\<close>

lemma parse_response_field:
  assumes "splitlines (strip content) = pre @ (label @ CHR '':'' # rest) # post"
  shows "lower label = ''advice'' \<Longrightarrow> \<forall>l \<in> set post. \<not> has_label ''advice'' l \<Longrightarrow>
           fst (snd (parse_response content)) = strip rest"
    and "lower label = ''disease'' \<Longrightarrow> \<forall>l \<in> set post. \<not> has_label ''disease'' l \<Longrightarrow>
           snd (snd (parse_response content)) = strip rest"
    and "lower label = ''severity'' \<Longrightarrow> title (strip rest) \<in> set SEVERITY_DISPLAY \<Longrightarrow>
           \<forall>l \<in> set post. \<not> names_tier l \<Longrightarrow>
           fst (parse_response content) = title (strip rest)"
proof -
  let ?line = "label @ CHR '':'' # rest"
  {
    fix name :: string
    assume n: "lower label = name" "CHR '':'' \<notin> set name"
      and p: "\<forall>l \<in> set post. \<not> has_label name l"
    have "startswith (lower ?line) (name @ '':'')" "after_colon ?line = rest"
      using label_line [OF n] by simp_all
    moreover have "\<forall>l \<in> set post. \<not> startswith (lower l) (name @ '':'')"
      using p has_label_startswith [OF n(2)] by simp
    ultimately have "find (\<lambda>l. startswith (lower l) (name @ '':''))
        (rev (splitlines (strip content))) = Some ?line"
      "after_colon ?line = rest"
      using find_last_match [OF assms] by simp_all
  }
  note field = this
  show "fst (snd (parse_response content)) = strip rest"
    if "lower label = ''advice''" "\<forall>l \<in> set post. \<not> has_label ''advice'' l"
    using field [of "''advice''"] that
    by (simp add: parse_response_def foldl_parse_line del: startswith.simps)
  show "snd (snd (parse_response content)) = strip rest"
    if "lower label = ''disease''" "\<forall>l \<in> set post. \<not> has_label ''disease'' l"
    using field [of "''disease''"] that
    by (simp add: parse_response_def foldl_parse_line del: startswith.simps)
  show "fst (parse_response content) = title (strip rest)"
    if s: "lower label = ''severity''" "title (strip rest) \<in> set SEVERITY_DISPLAY"
      "\<forall>l \<in> set post. \<not> names_tier l"
  proof -
    let ?P = "\<lambda>l. startswith (lower l) ''severity:'' \<and>
                 title (strip (after_colon l)) \<in> set SEVERITY_DISPLAY"
    have "names_tier ?line" using s(1,2) unfolding names_tier_def by blast
    then have "?P ?line" by (simp only: names_tier_iff)
    moreover have "\<forall>l \<in> set post. \<not> ?P l" using s(3) by (simp only: names_tier_iff)
    ultimately have "find ?P (rev (splitlines (strip content))) = Some ?line"
      using find_last_match [OF assms, of ?P] by blast
    moreover have "after_colon ?line = rest"
      using label_line(2) [OF s(1), of rest] by simp
    ultimately show ?thesis
      by (simp add: parse_response_def foldl_parse_line del: startswith.simps)
  qed
qed

lemma parse_response_default:
  shows "\<forall>l \<in> set (splitlines (strip content)). \<not> has_label ''advice'' l \<Longrightarrow>
           fst (snd (parse_response content)) = ''''"
    and "\<forall>l \<in> set (splitlines (strip content)). \<not> has_label ''disease'' l \<Longrightarrow>
           snd (snd (parse_response content)) = ''''"
    and "\<forall>l \<in> set (splitlines (strip content)). \<not> names_tier l \<Longrightarrow>
           fst (parse_response content) = ''Mild''"
proof -
  show "fst (snd (parse_response content)) = ''''"
    if "\<forall>l \<in> set (splitlines (strip content)). \<not> has_label ''advice'' l"
  proof -
    have "\<forall>l \<in> set (splitlines (strip content)). \<not> startswith (lower l) ''advice:''"
      using that has_label_startswith [of "''advice''"] by simp
    then have "find (\<lambda>l. startswith (lower l) ''advice:'') (rev (splitlines (strip content))) =
        None"
      by (rule find_no_match)
    then show ?thesis
      by (simp add: parse_response_def foldl_parse_line del: startswith.simps)
  qed
  show "snd (snd (parse_response content)) = ''''"
    if "\<forall>l \<in> set (splitlines (strip content)). \<not> has_label ''disease'' l"
  proof -
    have "\<forall>l \<in> set (splitlines (strip content)). \<not> startswith (lower l) ''disease:''"
      using that has_label_startswith [of "''disease''"] by simp
    then have "find (\<lambda>l. startswith (lower l) ''disease:'') (rev (splitlines (strip content))) =
        None"
      by (rule find_no_match)
    then show ?thesis
      by (simp add: parse_response_def foldl_parse_line del: startswith.simps)
  qed
  show "fst (parse_response content) = ''Mild''"
    if "\<forall>l \<in> set (splitlines (strip content)). \<not> names_tier l"
  proof -
    let ?P = "\<lambda>l. startswith (lower l) ''severity:'' \<and>
                 title (strip (after_colon l)) \<in> set SEVERITY_DISPLAY"
    have "\<forall>l \<in> set (splitlines (strip content)). \<not> ?P l"
      using that by (simp only: names_tier_iff)
    then have "find ?P (rev (splitlines (strip content))) = None"
      by (rule find_no_match)
    then show ?thesis
      by (simp add: parse_response_def foldl_parse_line del: startswith.simps)
  qed
qed

text \<open>What \<open>splitlines\<close> and \<open>strip\<close> compute, said without them.\<close>

lemma splitlines_from_Cons:
  "splitlines_from cur (c # cs) =
     (if c = CHR 0x0D \<and> cs \<noteq> [] \<and> hd cs = CHR 0x0A then rev cur # splitlines_from [] (tl cs)
      else if is_linebreak c then rev cur # splitlines_from [] cs
      else splitlines_from (c # cur) cs)"
  by (cases cs) simp_all

lemma splitlines_from_line:
  "\<forall>c \<in> set l. \<not> is_linebreak c \<Longrightarrow>
     splitlines_from cur (l @ rest) = splitlines_from (rev l @ cur) rest"
proof (induction l arbitrary: cur)
  case Nil
  show ?case by simp
next
  case (Cons c l)
  then have nb: "\<not> is_linebreak c" by simp
  then have "c \<noteq> CHR 0x0D" by (auto simp: is_linebreak_def)
  with nb have "splitlines_from cur (c # (l @ rest)) = splitlines_from (c # cur) (l @ rest)"
    by (simp only: splitlines_from_Cons if_False simp_thms)
  with Cons show ?case by simp
qed

lemma splitlines_from_line_feed:
  "splitlines_from cur (CHR 0x0A # rest) = rev cur # splitlines_from [] rest"
  by (simp add: splitlines_from_Cons is_linebreak_def)

lemma splitlines_from_join:
  "ls \<noteq> [] \<Longrightarrow> last ls \<noteq> [] \<Longrightarrow> \<forall>l \<in> set ls. \<forall>c \<in> set l. \<not> is_linebreak c \<Longrightarrow>
     splitlines_from cur (join_lines ls) = (rev cur @ hd ls) # tl ls"
proof (induction ls arbitrary: cur rule: join_lines.induct)
  case 1
  then show ?case by simp
next
  case (2 l)
  then have "splitlines_from cur (l @ []) = splitlines_from (rev l @ cur) []"
    by (intro splitlines_from_line) simp
  with 2 show ?case by simp
next
  case (3 l m ls)
  have "splitlines_from cur (l @ CHR 0x0A # join_lines (m # ls)) =
      splitlines_from (rev l @ cur) (CHR 0x0A # join_lines (m # ls))"
    using 3(4) by (intro splitlines_from_line) simp
  also have "\<dots> = (rev cur @ l) # splitlines_from [] (join_lines (m # ls))"
    by (simp add: splitlines_from_line_feed)
  also have "splitlines_from [] (join_lines (m # ls)) = m # ls"
    using 3(1) [of "[]"] 3(3,4) by simp
  finally show ?case by simp
qed

lemma splitlines_join:
  "ls \<noteq> [] \<Longrightarrow> last ls \<noteq> [] \<Longrightarrow> \<forall>l \<in> set ls. \<forall>c \<in> set l. \<not> is_linebreak c \<Longrightarrow>
     splitlines (join_lines ls) = ls"
  by (simp add: splitlines_def splitlines_from_join)

lemma strip_spec:
  assumes "list_all is_space before" "list_all is_space after"
    "t = [] \<or> (\<not> is_space (hd t) \<and> \<not> is_space (last t))"
  shows "strip (before @ t @ after) = t"
proof (cases "t = []")
  case True
  have blank: "dropWhile is_space xs = []" if "list_all is_space xs" for xs
    using that by (induction xs) simp_all
  have "list_all is_space (before @ after)" using assms(1,2) by simp
  then have d: "dropWhile is_space (before @ after) = []" by (rule blank)
  have "strip (before @ after) = rev (dropWhile is_space (rev (dropWhile is_space (before @ after))))"
    by (simp only: strip_def)
  also have "\<dots> = []" unfolding d by simp
  finally show ?thesis using True by simp
next
  case False
  with assms(3) have h: "\<not> is_space (hd t)" and l: "\<not> is_space (last t)" by simp_all
  obtain c cs where t: "t = c # cs" using False by (cases t) auto
  have d1: "dropWhile is_space (before @ t @ after) = t @ after"
    using assms(1) h t by (induction before) (simp_all add: list_all_iff)
  have "rev (t @ after) = rev after @ rev t" by simp
  moreover have "dropWhile is_space (rev after @ rev t) = dropWhile is_space (rev t)"
    using assms(2) by (simp add: dropWhile_append list_all_iff)
  moreover have "dropWhile is_space (rev t) = rev t"
    using l False by (cases "rev t") (simp_all add: last_rev [symmetric] hd_rev)
  ultimately show ?thesis by (simp add: strip_def d1)
qed

text \<open>
  C5. The parser goes through the lines of the response. A line made of the label
  Severity, Advice or Disease in any letter case, a colon and a rest sets the field of that
  label from the rest, trimmed; a line with none of the three labels changes nothing. The
  severity is replaced only when the title-cased trimmed rest is one of Mild, Moderate,
  Severe, and is kept otherwise, so a response none of whose Severity lines names a tier,
  and in particular a response with no Severity line, has severity Mild. Trimming takes
  the white space off both ends. The response "Severity: severe / Advice: go now /
  Disease: flu" (three lines) parses to Severe, "go now", "flu"; the response
  "Advice: rest", the next-line character U+0085, "Severity: severe", the no-break space
  U+00A0 has two lines and parses to Severe, "rest" and the empty text.
\<close>

theorem parse_response_labels:
  "parse_response (''Severity: severe'' @ [CHR 0x0A] @ ''Advice: go now'' @ [CHR 0x0A] @
       ''Disease: flu'') = (''Severe'', ''go now'', ''flu'')
   \<and> parse_response (''Advice: rest'' @ [CHR 0x85] @ ''Severity: severe'' @ [CHR 0xA0]) =
       (''Severe'', ''rest'', [])
   \<and> (lower label = ''severity'' \<longrightarrow>
        parse_line (sev, adv, dis) (label @ '':'' @ rest) =
          (if title (strip rest) \<in> set SEVERITY_DISPLAY then title (strip rest) else sev,
           adv, dis))
   \<and> (lower label = ''advice'' \<longrightarrow>
        parse_line (sev, adv, dis) (label @ '':'' @ rest) = (sev, strip rest, dis))
   \<and> (lower label = ''disease'' \<longrightarrow>
        parse_line (sev, adv, dis) (label @ '':'' @ rest) = (sev, adv, strip rest))
   \<and> (\<not> has_label ''severity'' line \<and> \<not> has_label ''advice'' line \<and>
        \<not> has_label ''disease'' line \<longrightarrow>
        parse_line (sev, adv, dis) line = (sev, adv, dis))
   \<and> ((\<forall>l \<in> set (splitlines (strip content)). \<not> names_tier l) \<longrightarrow>
        fst (parse_response content) = ''Mild'')
   \<and> ((\<forall>l \<in> set (splitlines (strip content)). \<not> has_label ''severity'' l) \<longrightarrow>
        fst (parse_response content) = ''Mild'')
   \<and> (list_all is_space before \<and> list_all is_space after \<and>
        (t = [] \<or> (\<not> is_space (hd t) \<and> \<not> is_space (last t))) \<longrightarrow>
        strip (before @ t @ after) = t)"
proof (intro conjI impI)
  show "parse_response (''Severity: severe'' @ [CHR 0x0A] @ ''Advice: go now'' @ [CHR 0x0A] @
       ''Disease: flu'') = (''Severe'', ''go now'', ''flu'')"
    by code_simp
next
  show "parse_response (''Advice: rest'' @ [CHR 0x85] @ ''Severity: severe'' @ [CHR 0xA0]) =
       (''Severe'', ''rest'', [])"
    by code_simp
next
  assume "lower label = ''severity''"
  then show "parse_line (sev, adv, dis) (label @ '':'' @ rest) =
          (if title (strip rest) \<in> set SEVERITY_DISPLAY then title (strip rest) else sev,
           adv, dis)"
    by (rule parse_line_severity)
next
  assume "lower label = ''advice''"
  then show "parse_line (sev, adv, dis) (label @ '':'' @ rest) = (sev, strip rest, dis)"
    by (rule parse_line_advice)
next
  assume "lower label = ''disease''"
  then show "parse_line (sev, adv, dis) (label @ '':'' @ rest) = (sev, adv, strip rest)"
    by (rule parse_line_disease)
next
  assume "\<not> has_label ''severity'' line \<and> \<not> has_label ''advice'' line \<and>
        \<not> has_label ''disease'' line"
  then have "\<not> startswith (lower line) ''severity:''" "\<not> startswith (lower line) ''advice:''"
    "\<not> startswith (lower line) ''disease:''"
    using has_label_startswith [of "''severity''" line] has_label_startswith [of "''advice''" line]
      has_label_startswith [of "''disease''" line]
    by simp_all
  then show "parse_line (sev, adv, dis) line = (sev, adv, dis)"
    by (rule parse_line_other)
next
  assume "\<forall>l \<in> set (splitlines (strip content)). \<not> names_tier l"
  then show "fst (parse_response content) = ''Mild''"
    by (rule parse_response_default(3))
next
  assume h: "\<forall>l \<in> set (splitlines (strip content)). \<not> has_label ''severity'' l"
  have "\<forall>l \<in> set (splitlines (strip content)). \<not> names_tier l"
    using h unfolding names_tier_def has_label_def by blast
  then show "fst (parse_response content) = ''Mild''"
    by (rule parse_response_default(3))
next
  assume "list_all is_space before \<and> list_all is_space after \<and>
        (t = [] \<or> (\<not> is_space (hd t) \<and> \<not> is_space (last t)))"
  then show "strip (before @ t @ after) = t"
    using strip_spec by blast
qed

theorem parse_response_labels_witness:
  "lower ''SEVERITY'' = ''severity''
   \<and> parse_line (''Mild'', '''', '''') (''SEVERITY'' @ '':'' @ ''  moderate '') =
       (''Moderate'', '''', '''')
   \<and> parse_line (''Severe'', '''', '''') (''SEVERITY'' @ '':'' @ '' critical'') =
       (''Severe'', '''', '''')
   \<and> lower ''Advice'' = ''advice''
   \<and> parse_line (''Mild'', '''', '''') (''Advice'' @ '':'' @ '' rest: and fluids '') =
       (''Mild'', ''rest: and fluids'', '''')
   \<and> lower ''DISEASE'' = ''disease''
   \<and> parse_line (''Mild'', '''', '''') (''DISEASE'' @ '':'' @ '' flu'') =
       (''Mild'', '''', ''flu'')
   \<and> \<not> has_label ''severity'' ''Severity high''
   \<and> \<not> has_label ''advice'' ''Severity high''
   \<and> \<not> has_label ''disease'' ''Severity high''
   \<and> parse_line (''Moderate'', ''rest'', ''flu'') ''Severity high'' =
       (''Moderate'', ''rest'', ''flu'')
   \<and> list_all (\<lambda>l. \<not> names_tier l)
         (splitlines (strip (''Severity: critical'' @ [CHR 0x0A] @ ''Advice: go now'')))
   \<and> fst (parse_response (''Severity: critical'' @ [CHR 0x0A] @ ''Advice: go now'')) = ''Mild''
   \<and> list_all (\<lambda>l. \<not> has_label ''severity'' l)
         (splitlines (strip (''Advice: go now'' @ [CHR 0x0A] @ ''Disease: flu'')))
   \<and> fst (parse_response (''Advice: go now'' @ [CHR 0x0A] @ ''Disease: flu'')) = ''Mild''
   \<and> list_all is_space [CHR 0x09, CHR '' '']
   \<and> list_all is_space [CHR 0xA0, CHR 0x85, CHR 0x0A]
   \<and> strip ([CHR 0x09, CHR '' ''] @ ''go  now'' @ [CHR 0xA0, CHR 0x85, CHR 0x0A]) = ''go  now''
   \<and> parse_response (''Severity: severe'' @ [CHR 0xA0, CHR 0x0D, CHR 0x0A] @ ''Advice: rest'' @
         [CHR 0x85] @ ''Disease: flu'') = (''Severe'', ''rest'', ''flu'')"
proof -
  let ?c1 = "''Severity: critical'' @ [CHR 0x0A] @ ''Advice: go now''"
  let ?c2 = "''Advice: go now'' @ [CHR 0x0A] @ ''Disease: flu''"
  have h1: "lower ''SEVERITY'' = ''severity''" by code_simp
  have h2: "lower ''Advice'' = ''advice''" by code_simp
  have h4: "lower ''DISEASE'' = ''disease''" by code_simp
  have "\<not> startswith (lower ''Severity high'') ''severity:''"
    "\<not> startswith (lower ''Severity high'') ''advice:''"
    "\<not> startswith (lower ''Severity high'') ''disease:''"
    by code_simp+
  then have h5: "\<not> has_label ''severity'' ''Severity high''"
    "\<not> has_label ''advice'' ''Severity high''"
    "\<not> has_label ''disease'' ''Severity high''"
    by (simp_all only: has_label_names not_False_eq_True)
  have "list_all (\<lambda>l. \<not> (startswith (lower l) ''severity:'' \<and>
             title (strip (after_colon l)) \<in> set SEVERITY_DISPLAY)) (splitlines (strip ?c1))"
    by code_simp
  then have h6: "list_all (\<lambda>l. \<not> names_tier l) (splitlines (strip ?c1))"
    by (simp only: names_tier_iff)
  have "list_all (\<lambda>l. \<not> startswith (lower l) ''severity:'') (splitlines (strip ?c2))"
    by code_simp
  then have h3: "list_all (\<lambda>l. \<not> has_label ''severity'' l) (splitlines (strip ?c2))"
    by (simp only: has_label_names)
  have h8: "list_all is_space [CHR 0x09, CHR '' '']" "list_all is_space [CHR 0xA0, CHR 0x85, CHR 0x0A]"
    by code_simp+
  have h9: "\<not> is_space (hd ''go  now'') \<and> \<not> is_space (last ''go  now'')" by code_simp
  have t1: "title (strip ''  moderate '') = ''Moderate''" by code_simp
  have t2: "strip '' rest: and fluids '' = ''rest: and fluids''" by code_simp
  have t3: "title (strip '' critical'') = ''Critical''" by code_simp
  have t4: "strip '' flu'' = ''flu''" by code_simp
  have s1: "parse_line (''Mild'', '''', '''') (''SEVERITY'' @ '':'' @ ''  moderate '') =
       (''Moderate'', '''', '''')"
    using parse_response_labels
      [where label = "''SEVERITY''" and sev = "''Mild''" and adv = "''''" and dis = "''''"
         and rest = "''  moderate ''"] h1
    by (simp only: t1 SEVERITY_DISPLAY_def) simp
  have s1': "parse_line (''Severe'', '''', '''') (''SEVERITY'' @ '':'' @ '' critical'') =
       (''Severe'', '''', '''')"
    using parse_response_labels
      [where label = "''SEVERITY''" and sev = "''Severe''" and adv = "''''" and dis = "''''"
         and rest = "'' critical''"] h1
    by (simp only: t3 SEVERITY_DISPLAY_def) simp
  have s2: "parse_line (''Mild'', '''', '''') (''Advice'' @ '':'' @ '' rest: and fluids '') =
       (''Mild'', ''rest: and fluids'', '''')"
    using parse_response_labels
      [where label = "''Advice''" and sev = "''Mild''" and adv = "''''" and dis = "''''"
         and rest = "'' rest: and fluids ''"] h2
    by (simp only: t2)
  have s4: "parse_line (''Mild'', '''', '''') (''DISEASE'' @ '':'' @ '' flu'') =
       (''Mild'', '''', ''flu'')"
    using parse_response_labels
      [where label = "''DISEASE''" and sev = "''Mild''" and adv = "''''" and dis = "''''"
         and rest = "'' flu''"] h4
    by (simp only: t4)
  have s5: "parse_line (''Moderate'', ''rest'', ''flu'') ''Severity high'' =
       (''Moderate'', ''rest'', ''flu'')"
    using parse_response_labels
      [where line = "''Severity high''" and sev = "''Moderate''" and adv = "''rest''"
         and dis = "''flu''"] h5
    by blast
  have s6: "fst (parse_response ?c1) = ''Mild''"
    using parse_response_labels [where content = ?c1] h6
    unfolding list_all_iff by blast
  have s3: "fst (parse_response ?c2) = ''Mild''"
    using parse_response_labels [where content = ?c2] h3
    unfolding list_all_iff by blast
  have s8: "strip ([CHR 0x09, CHR '' ''] @ ''go  now'' @ [CHR 0xA0, CHR 0x85, CHR 0x0A]) = ''go  now''"
    using parse_response_labels
      [where before = "[CHR 0x09, CHR '' '']" and t = "''go  now''"
         and after = "[CHR 0xA0, CHR 0x85, CHR 0x0A]"] h8 h9
    by blast
  have s9: "parse_response (''Severity: severe'' @ [CHR 0xA0, CHR 0x0D, CHR 0x0A] @
         ''Advice: rest'' @ [CHR 0x85] @ ''Disease: flu'') = (''Severe'', ''rest'', ''flu'')"
    by code_simp
  from h1 s1 s1' h2 s2 h4 s4 h5 s5 h6 s6 h3 s3 h8 s8 s9 show ?thesis by (intro conjI)
qed

text \<open>
  C9. For every response, with its lines those of the trimmed response: the advice is the
  trimmed rest, after the first colon, of the last line that has the label Advice, and
  the disease likewise for the label Disease, each the empty text when no line has the
  label; the severity is the title-cased trimmed rest of the last Severity line that names
  a tier, and Mild when no line does. The lines of a text made of lines joined by line
  feeds are those lines. The response \<open>repeated_labels\<close>, which has each label on two
  lines, parses to Severe, "second: b", "cold".
\<close>

theorem parse_response_last_line_wins:
  "(splitlines (strip content) = pre @ (label @ CHR '':'' # rest) # post \<and>
      lower label = ''advice'' \<and> (\<forall>l \<in> set post. \<not> has_label ''advice'' l) \<longrightarrow>
      fst (snd (parse_response content)) = strip rest)
   \<and> ((\<forall>l \<in> set (splitlines (strip content)). \<not> has_label ''advice'' l) \<longrightarrow>
      fst (snd (parse_response content)) = '''')
   \<and> (splitlines (strip content) = pre @ (label @ CHR '':'' # rest) # post \<and>
      lower label = ''disease'' \<and> (\<forall>l \<in> set post. \<not> has_label ''disease'' l) \<longrightarrow>
      snd (snd (parse_response content)) = strip rest)
   \<and> ((\<forall>l \<in> set (splitlines (strip content)). \<not> has_label ''disease'' l) \<longrightarrow>
      snd (snd (parse_response content)) = '''')
   \<and> (splitlines (strip content) = pre @ (label @ CHR '':'' # rest) # post \<and>
      lower label = ''severity'' \<and> title (strip rest) \<in> set SEVERITY_DISPLAY \<and>
      (\<forall>l \<in> set post. \<not> names_tier l) \<longrightarrow>
      fst (parse_response content) = title (strip rest))
   \<and> ((\<forall>l \<in> set (splitlines (strip content)). \<not> names_tier l) \<longrightarrow>
      fst (parse_response content) = ''Mild'')
   \<and> (ls \<noteq> [] \<and> last ls \<noteq> [] \<and> (\<forall>l \<in> set ls. \<forall>c \<in> set l. \<not> is_linebreak c) \<longrightarrow>
      splitlines (join_lines ls) = ls)
   \<and> parse_response repeated_labels = (''Severe'', ''second: b'', ''cold'')"
proof (intro conjI impI)
  show "parse_response repeated_labels = (''Severe'', ''second: b'', ''cold'')"
    by code_simp
next
  assume "splitlines (strip content) = pre @ (label @ CHR '':'' # rest) # post \<and>
      lower label = ''advice'' \<and> (\<forall>l \<in> set post. \<not> has_label ''advice'' l)"
  then show "fst (snd (parse_response content)) = strip rest"
    using parse_response_field(1) by blast
next
  assume "\<forall>l \<in> set (splitlines (strip content)). \<not> has_label ''advice'' l"
  then show "fst (snd (parse_response content)) = ''''"
    by (rule parse_response_default(1))
next
  assume "splitlines (strip content) = pre @ (label @ CHR '':'' # rest) # post \<and>
      lower label = ''disease'' \<and> (\<forall>l \<in> set post. \<not> has_label ''disease'' l)"
  then show "snd (snd (parse_response content)) = strip rest"
    using parse_response_field(2) by blast
next
  assume "\<forall>l \<in> set (splitlines (strip content)). \<not> has_label ''disease'' l"
  then show "snd (snd (parse_response content)) = ''''"
    by (rule parse_response_default(2))
next
  assume "splitlines (strip content) = pre @ (label @ CHR '':'' # rest) # post \<and>
      lower label = ''severity'' \<and> title (strip rest) \<in> set SEVERITY_DISPLAY \<and>
      (\<forall>l \<in> set post. \<not> names_tier l)"
  then show "fst (parse_response content) = title (strip rest)"
    using parse_response_field(3) by blast
next
  assume "\<forall>l \<in> set (splitlines (strip content)). \<not> names_tier l"
  then show "fst (parse_response content) = ''Mild''"
    by (rule parse_response_default(3))
next
  assume "ls \<noteq> [] \<and> last ls \<noteq> [] \<and> (\<forall>l \<in> set ls. \<forall>c \<in> set l. \<not> is_linebreak c)"
  then show "splitlines (join_lines ls) = ls"
    using splitlines_join by blast
qed

theorem parse_response_last_line_wins_witness:
  "splitlines (strip repeated_labels) =
     [''Advice: first'', ''Severity: severe'', ''advice:  second: b '', ''SEVERITY: unknown'',
      ''Disease: flu'', ''DISEASE: cold'']
   \<and> fst (snd (parse_response repeated_labels)) = ''second: b''
   \<and> snd (snd (parse_response repeated_labels)) = ''cold''
   \<and> fst (parse_response repeated_labels) = ''Severe''
   \<and> parse_response repeated_labels = (''Severe'', ''second: b'', ''cold'')
   \<and> list_all (\<lambda>l. \<not> has_label ''advice'' l) (splitlines (strip ''Severity: unknown''))
   \<and> list_all (\<lambda>l. \<not> has_label ''disease'' l) (splitlines (strip ''Severity: unknown''))
   \<and> list_all (\<lambda>l. \<not> names_tier l) (splitlines (strip ''Severity: unknown''))
   \<and> parse_response ''Severity: unknown'' = (''Mild'', '''', '''')
   \<and> splitlines (join_lines [''Advice: a'', '''', ''Advice: b'']) =
       [''Advice: a'', '''', ''Advice: b'']"
proof -
  let ?l1 = "''Advice: first''" and ?l2 = "''Severity: severe''"
    and ?l3 = "''advice:  second: b ''" and ?l4 = "''SEVERITY: unknown''"
    and ?l5 = "''Disease: flu''" and ?l6 = "''DISEASE: cold''"
  let ?u = "''Severity: unknown''"
  have lines: "splitlines (strip repeated_labels) = [?l1, ?l2, ?l3, ?l4, ?l5, ?l6]"
    by code_simp
  have adv_split: "splitlines (strip repeated_labels) =
      [?l1, ?l2] @ (''advice'' @ CHR '':'' # ''  second: b '') # [?l4, ?l5, ?l6]"
    unfolding lines by simp
  have dis_split: "splitlines (strip repeated_labels) =
      [?l1, ?l2, ?l3, ?l4, ?l5] @ (''DISEASE'' @ CHR '':'' # '' cold'') # []"
    unfolding lines by simp
  have sev_split: "splitlines (strip repeated_labels) =
      [?l1] @ (''Severity'' @ CHR '':'' # '' severe'') # [?l3, ?l4, ?l5, ?l6]"
    unfolding lines by simp
  have low: "lower ''advice'' = ''advice''" "lower ''DISEASE'' = ''disease''"
    "lower ''Severity'' = ''severity''"
    by code_simp+
  have "list_all (\<lambda>l. \<not> startswith (lower l) ''advice:'') [?l4, ?l5, ?l6]"
    by code_simp
  then have adv_post: "\<forall>l \<in> set [?l4, ?l5, ?l6]. \<not> has_label ''advice'' l"
    by (simp only: has_label_names list_all_iff)
  have dis_post: "\<forall>l \<in> set ([] :: string list). \<not> has_label ''disease'' l" by simp
  have "list_all (\<lambda>l. \<not> (startswith (lower l) ''severity:'' \<and>
             title (strip (after_colon l)) \<in> set SEVERITY_DISPLAY)) [?l3, ?l4, ?l5, ?l6]"
    by code_simp
  then have sev_post: "\<forall>l \<in> set [?l3, ?l4, ?l5, ?l6]. \<not> names_tier l"
    by (simp only: names_tier_iff list_all_iff)
  have sev_val: "title (strip '' severe'') = ''Severe''" by code_simp
  then have sev_in: "title (strip '' severe'') \<in> set SEVERITY_DISPLAY"
    by (simp add: SEVERITY_DISPLAY_def)
  have adv_val: "strip ''  second: b '' = ''second: b''" by code_simp
  have dis_val: "strip '' cold'' = ''cold''" by code_simp
  have a: "fst (snd (parse_response repeated_labels)) = ''second: b''"
    using parse_response_last_line_wins
      [where content = repeated_labels and pre = "[?l1, ?l2]" and label = "''advice''"
         and rest = "''  second: b ''" and post = "[?l4, ?l5, ?l6]"]
      adv_split low(1) adv_post
    unfolding adv_val by blast
  have d: "snd (snd (parse_response repeated_labels)) = ''cold''"
    using parse_response_last_line_wins
      [where content = repeated_labels and pre = "[?l1, ?l2, ?l3, ?l4, ?l5]"
         and label = "''DISEASE''" and rest = "'' cold''" and post = "[]"]
      dis_split low(2) dis_post
    unfolding dis_val by blast
  have s: "fst (parse_response repeated_labels) = ''Severe''"
    using parse_response_last_line_wins
      [where content = repeated_labels and pre = "[?l1]" and label = "''Severity''"
         and rest = "'' severe''" and post = "[?l3, ?l4, ?l5, ?l6]"]
      sev_split low(3) sev_in sev_post
    unfolding sev_val by blast
  have all: "parse_response repeated_labels = (''Severe'', ''second: b'', ''cold'')"
    using a d s by (cases "parse_response repeated_labels") simp
  have evaluated: "parse_response repeated_labels = (''Severe'', ''second: b'', ''cold'')"
    by code_simp
  have "list_all (\<lambda>l. \<not> startswith (lower l) ''advice:'') (splitlines (strip ?u))"
    "list_all (\<lambda>l. \<not> startswith (lower l) ''disease:'') (splitlines (strip ?u))"
    by code_simp+
  then have u1: "list_all (\<lambda>l. \<not> has_label ''advice'' l) (splitlines (strip ?u))"
    and u2: "list_all (\<lambda>l. \<not> has_label ''disease'' l) (splitlines (strip ?u))"
    by (simp_all only: has_label_names not_False_eq_True)
  have "list_all (\<lambda>l. \<not> (startswith (lower l) ''severity:'' \<and>
             title (strip (after_colon l)) \<in> set SEVERITY_DISPLAY)) (splitlines (strip ?u))"
    by code_simp
  then have u3: "list_all (\<lambda>l. \<not> names_tier l) (splitlines (strip ?u))"
    by (simp only: names_tier_iff)
  have "fst (snd (parse_response ?u)) = ''''" "snd (snd (parse_response ?u)) = ''''"
    "fst (parse_response ?u) = ''Mild''"
    using parse_response_last_line_wins [where content = ?u] u1 u2 u3
    unfolding list_all_iff by blast+
  then have u: "parse_response ?u = (''Mild'', '''', '''')"
    by (cases "parse_response ?u") simp
  have nb: "\<forall>l \<in> set [''Advice: a'', '''', ''Advice: b'']. \<forall>c \<in> set l. \<not> is_linebreak c"
    by (simp add: is_linebreak_def)
  have j: "splitlines (join_lines [''Advice: a'', '''', ''Advice: b'']) =
       [''Advice: a'', '''', ''Advice: b'']"
    using parse_response_last_line_wins [where ls = "[''Advice: a'', '''', ''Advice: b'']"] nb
    by simp
  from lines a d s all u1 u2 u3 u j show ?thesis by (intro conjI)
qed

section \<open>The order of the tiers\<close>

lemma triage_dataset:
  "dataset_match df (preprocess raw) = Some r \<Longrightarrow>
     triage_symptoms df client raw =
       ((result_severity r, result_advice r, result_disease r), [])"
  by (simp add: triage_symptoms_def)

lemma triage_llm:
  "dataset_match df (preprocess raw) = None \<Longrightarrow>
   llm_triage client (preprocess raw) = (Some v, sent) \<Longrightarrow>
     triage_symptoms df client raw = (v, sent)"
  by (simp add: triage_symptoms_def)

lemma triage_rule:
  "dataset_match df (preprocess raw) = None \<Longrightarrow>
   llm_triage client (preprocess raw) = (None, sent) \<Longrightarrow>
     triage_symptoms df client raw =
       ((fst (rule_based_triage (preprocess raw)), snd (rule_based_triage (preprocess raw)), ''''),
        sent)"
  by (simp add: triage_symptoms_def split: prod.splits)

lemma llm_triage_disabled: "llm_triage None t = (None, [])"
  by (simp add: llm_triage_def)

lemma llm_triage_fault:
  "create (build_prompt t) = Inl e \<Longrightarrow> llm_triage (Some create) t = (None, [build_prompt t])"
  by (simp add: llm_triage_def)

lemma llm_triage_content:
  "create (build_prompt t) = Inr content \<Longrightarrow>
     llm_triage (Some create) t = (Some (parse_response content), [build_prompt t])"
  by (simp add: llm_triage_def)

text \<open>
  C2. When the dataset matcher succeeds on the normalised text, triage returns exactly its
  result (severity, templated advice, disease) whatever the reasoning client is, and
  sends no prompt to the reasoning service. When the dataset matcher fails and the
  reasoning matcher succeeds, triage returns the reasoning result. When both fail, triage
  returns the rule matcher's severity and advice with an empty disease.
\<close>

theorem triage_waterfall:
  "(dataset_match df (preprocess raw) = Some r \<longrightarrow>
      triage_symptoms df client raw =
        ((result_severity r, result_advice r, result_disease r), []) \<and>
      result_advice r =
        ''Possible: '' @ result_disease r @ ''. Please consult a doctor for proper diagnosis.'')
   \<and> (dataset_match df (preprocess raw) = None \<and>
        llm_triage client (preprocess raw) = (Some v, sent) \<longrightarrow>
      triage_symptoms df client raw = (v, sent))
   \<and> (dataset_match df (preprocess raw) = None \<and>
        llm_triage client (preprocess raw) = (None, sent) \<longrightarrow>
      triage_symptoms df client raw =
        ((fst (rule_based_triage (preprocess raw)),
          snd (rule_based_triage (preprocess raw)), ''''), sent))"
proof (intro conjI impI)
  assume h: "dataset_match df (preprocess raw) = Some r"
  then show "triage_symptoms df client raw =
        ((result_severity r, result_advice r, result_disease r), [])"
    by (rule triage_dataset)
  from h show "result_advice r =
        ''Possible: '' @ result_disease r @ ''. Please consult a doctor for proper diagnosis.''"
    by (rule dataset_match_template)
next
  assume "dataset_match df (preprocess raw) = None \<and>
        llm_triage client (preprocess raw) = (Some v, sent)"
  then show "triage_symptoms df client raw = (v, sent)"
    using triage_llm by blast
next
  assume "dataset_match df (preprocess raw) = None \<and>
        llm_triage client (preprocess raw) = (None, sent)"
  then show "triage_symptoms df client raw =
        ((fst (rule_based_triage (preprocess raw)),
          snd (rule_based_triage (preprocess raw)), ''''), sent)"
    using triage_rule by blast
qed

theorem triage_waterfall_witness:
  "dataset_match (Some example_frame) (preprocess ''High FEVER and cough '') =
     Some \<lparr>result_disease = ''Flu'', result_severity = ''Moderate'',
           result_advice = ''Possible: Flu. Please consult a doctor for proper diagnosis.''\<rparr>
   \<and> rule_based_triage (preprocess ''High FEVER and cough '') =
       (''Moderate'',
        ''Consult a doctor within 24 hours. If symptoms worsen, seek emergency care.'')
   \<and> triage_symptoms (Some example_frame) (Some empty_reply) ''High FEVER and cough '' =
       ((''Moderate'', ''Possible: Flu. Please consult a doctor for proper diagnosis.'', ''Flu''),
        [])
   \<and> dataset_match (Some example_frame) (preprocess ''sore knee'') = None
   \<and> llm_triage (Some empty_reply) (preprocess ''sore knee'') =
       (Some (''Mild'', '''', ''''), [build_prompt ''sore knee''])
   \<and> triage_symptoms (Some example_frame) (Some empty_reply) ''sore knee'' =
       ((''Mild'', '''', ''''), [build_prompt ''sore knee''])
   \<and> llm_triage None (preprocess ''sore knee'') = (None, [])
   \<and> fst (triage_symptoms (Some example_frame) None ''sore knee'') =
       (''Mild'', ''Home care recommended. Rest, stay hydrated, and monitor symptoms.'', '''')"
proof -
  have d1: "dataset_match (Some example_frame) (preprocess ''High FEVER and cough '') =
     Some \<lparr>result_disease = ''Flu'', result_severity = ''Moderate'',
           result_advice = ''Possible: Flu. Please consult a doctor for proper diagnosis.''\<rparr>"
    by code_simp
  have r1: "rule_based_triage (preprocess ''High FEVER and cough '') =
       (''Moderate'',
        ''Consult a doctor within 24 hours. If symptoms worsen, seek emergency care.'')"
    by code_simp
  have d2: "dataset_match (Some example_frame) (preprocess ''sore knee'') = None"
    by code_simp
  have p2: "preprocess ''sore knee'' = ''sore knee''"
    by code_simp
  have e2: "parse_response '''' = (''Mild'', '''', '''')"
    by code_simp
  have l2: "llm_triage (Some empty_reply) (preprocess ''sore knee'') =
       (Some (''Mild'', '''', ''''), [build_prompt ''sore knee''])"
    using llm_triage_content [of empty_reply "''sore knee''" "''''"]
    by (simp only: p2 e2 empty_reply_def)
  have l3: "llm_triage None (preprocess ''sore knee'') = (None, [])"
    by (rule llm_triage_disabled)
  have r3: "rule_based_triage (preprocess ''sore knee'') =
       (''Mild'', ''Home care recommended. Rest, stay hydrated, and monitor symptoms.'')"
    by code_simp
  have t1: "triage_symptoms (Some example_frame) (Some empty_reply) ''High FEVER and cough '' =
       ((''Moderate'', ''Possible: Flu. Please consult a doctor for proper diagnosis.'', ''Flu''),
        [])"
    using triage_waterfall [where df = "Some example_frame" and raw = "''High FEVER and cough ''"
        and client = "Some empty_reply"] d1
    by simp
  have t2: "triage_symptoms (Some example_frame) (Some empty_reply) ''sore knee'' =
       ((''Mild'', '''', ''''), [build_prompt ''sore knee''])"
    using triage_waterfall [where df = "Some example_frame" and raw = "''sore knee''"
        and client = "Some empty_reply"] d2 l2
    by blast
  have "triage_symptoms (Some example_frame) None ''sore knee'' =
        ((fst (rule_based_triage (preprocess ''sore knee'')),
          snd (rule_based_triage (preprocess ''sore knee'')), ''''), [])"
    using triage_waterfall [where df = "Some example_frame" and raw = "''sore knee''"
        and client = None] d2 l3
    by blast
  then have t3: "fst (triage_symptoms (Some example_frame) None ''sore knee'') =
       (''Mild'', ''Home care recommended. Rest, stay hydrated, and monitor symptoms.'', '''')"
    by (simp only: r3 fst_conv snd_conv)
  from d1 r1 t1 d2 l2 t2 l3 t3 show ?thesis by (intro conjI)
qed

section \<open>The shape of the verdict\<close>

lemma scan_conditions_member:
  "scan_conditions conds t = Some (s, a) \<Longrightarrow> \<exists>c \<in> set conds. s = severity c \<and> a = advice c"
  by (induction conds) (auto split: if_splits)

lemma rule_based_triage_shape:
  "fst (rule_based_triage t) \<in> set SEVERITY_DISPLAY \<and> snd (rule_based_triage t) \<noteq> ''''"
proof (cases "scan_conditions CONDITIONS t")
  case None
  then show ?thesis by (simp add: rule_based_triage_def SEVERITY_DISPLAY_def)
next
  case (Some r)
  obtain s a where r: "r = (s, a)" by (cases r)
  with Some scan_conditions_member [of CONDITIONS t s a]
  obtain c where "c \<in> set CONDITIONS" "s = severity c" "a = advice c" by blast
  then have "s \<in> set SEVERITY_DISPLAY \<and> a \<noteq> ''''"
    by (auto simp: CONDITIONS_def SEVERITY_DISPLAY_def)
  with Some r show ?thesis by (simp add: rule_based_triage_def)
qed

lemma parse_response_severity: "fst (parse_response content) \<in> set SEVERITY_DISPLAY"
proof -
  let ?P = "\<lambda>l. startswith (lower l) ''severity:'' \<and>
                     title (strip (after_colon l)) \<in> set SEVERITY_DISPLAY"
  let ?ls = "rev (splitlines (strip content))"
  have eq: "fst (parse_response content) =
      (case find ?P ?ls of None \<Rightarrow> ''Mild'' | Some l \<Rightarrow> title (strip (after_colon l)))"
    by (simp add: parse_response_def foldl_parse_line del: startswith.simps)
  show ?thesis
  proof (cases "find ?P ?ls")
    case None
    with eq show ?thesis by (simp add: SEVERITY_DISPLAY_def)
  next
    case (Some l)
    then have "?P l" by (auto simp: find_Some_iff simp del: startswith.simps)
    with eq Some show ?thesis by simp
  qed
qed

lemma max_by_member: "max_by key best xs \<in> set (best # xs)"
  by (induction xs arbitrary: best) (auto split: if_splits)

lemma dataset_match_row:
  assumes "dataset_match (Some df) t = Some r"
  shows "\<exists>row \<in> set df. occurs_in (symptom row) t \<and>
           result_disease r = disease row \<and> result_severity r = risk_level row \<and>
           result_advice r = ''Possible: '' @ disease row @
             ''. Please consult a doctor for proper diagnosis.'' \<and>
           (\<forall>other \<in> set df. occurs_in (symptom other) t \<longrightarrow>
              risk_priority (risk_level other) \<le> risk_priority (risk_level row))"
proof -
  let ?cands = "filter (\<lambda>row. occurs_in (symptom row) t) df"
  have "?cands \<noteq> []"
    using assms dataset_match_no_candidate [of t df] by auto
  from dataset_match_best [OF this]
  obtain pre best post where b: "?cands = pre @ best # post"
    "\<forall>row \<in> set pre. risk_priority (risk_level row) < risk_priority (risk_level best)"
    "\<forall>row \<in> set post. risk_priority (risk_level row) \<le> risk_priority (risk_level best)"
    "dataset_match (Some df) t =
       Some \<lparr>result_disease = disease best, result_severity = risk_level best,
             result_advice = ''Possible: '' @ disease best @
               ''. Please consult a doctor for proper diagnosis.''\<rparr>"
    by blast
  have "best \<in> set ?cands" using b(1) by simp
  then have mem: "best \<in> set df" "occurs_in (symptom best) t" by simp_all
  have greatest: "\<forall>other \<in> set df. occurs_in (symptom other) t \<longrightarrow>
              risk_priority (risk_level other) \<le> risk_priority (risk_level best)"
  proof (intro ballI impI)
    fix other assume "other \<in> set df" "occurs_in (symptom other) t"
    then have "other \<in> set ?cands" by simp
    with b(1) have "other \<in> set pre \<or> other = best \<or> other \<in> set post" by auto
    with b(2,3) show "risk_priority (risk_level other) \<le> risk_priority (risk_level best)"
      by (auto intro: less_imp_le)
  qed
  from assms b(4) have "r = \<lparr>result_disease = disease best, result_severity = risk_level best,
             result_advice = ''Possible: '' @ disease best @
               ''. Please consult a doctor for proper diagnosis.''\<rparr>"
    by simp
  with mem greatest show ?thesis by auto
qed

lemma dataset_match_absent: "dataset_match None t = None"
  by (simp add: dataset_match_def)

text \<open>
  C1 (as amended). For every text input, the severity of the verdict is one of Mild,
  Moderate, Severe whenever the dataset matcher did not match, and also when it matched
  provided every risk level of the index is one of the three: a dataset verdict carries
  the risk level of the matched row as it is. The advice is not empty whenever the dataset
  matcher matched or the reasoning matcher reported no match, that is, whenever the
  dataset tier or the rule tier produced the verdict.
\<close>

theorem triage_verdict_shape:
  "(dataset_match symptoms_df (preprocess raw) = None \<longrightarrow>
      fst (fst (triage_symptoms symptoms_df openai_client raw)) \<in> set SEVERITY_DISPLAY)
   \<and> (symptoms_df = Some df \<and> (\<forall>row \<in> set df. risk_level row \<in> set SEVERITY_DISPLAY) \<longrightarrow>
      fst (fst (triage_symptoms symptoms_df openai_client raw)) \<in> set SEVERITY_DISPLAY)
   \<and> (dataset_match symptoms_df (preprocess raw) = Some r \<longrightarrow>
      fst (fst (triage_symptoms symptoms_df openai_client raw)) = result_severity r \<and>
      (\<exists>row \<in> set (case symptoms_df of None \<Rightarrow> [] | Some rows \<Rightarrow> rows).
         result_severity r = risk_level row))
   \<and> (dataset_match symptoms_df (preprocess raw) \<noteq> None \<or>
        fst (llm_triage openai_client (preprocess raw)) = None \<longrightarrow>
      fst (snd (fst (triage_symptoms symptoms_df openai_client raw))) \<noteq> '''')"
proof -
  let ?t = "preprocess raw"
  let ?v = "fst (triage_symptoms symptoms_df openai_client raw)"
  have no_match: "fst ?v \<in> set SEVERITY_DISPLAY" if none: "dataset_match symptoms_df ?t = None"
  proof (cases "llm_triage openai_client ?t")
    case (Pair res sent)
    show ?thesis
    proof (cases res)
      case None
      with Pair have "?v = (fst (rule_based_triage ?t), snd (rule_based_triage ?t), '''')"
        by (simp add: triage_rule [OF none])
      then show ?thesis using rule_based_triage_shape [of ?t] by simp
    next
      case (Some v)
      with Pair have tv: "?v = v" by (simp add: triage_llm [OF none])
      from Pair Some obtain content where "v = parse_response content"
        by (auto simp: llm_triage_def Let_def split: option.splits sum.splits)
      with tv show ?thesis using parse_response_severity [of content] by simp
    qed
  qed
  have matched: "fst ?v = result_severity r \<and>
      (\<exists>row \<in> set (case symptoms_df of None \<Rightarrow> [] | Some rows \<Rightarrow> rows).
         result_severity r = risk_level row) \<and> fst (snd ?v) \<noteq> ''''"
    if some: "dataset_match symptoms_df ?t = Some r" for r
  proof -
    from some obtain rows where rows: "symptoms_df = Some rows"
      by (cases symptoms_df) (simp_all add: dataset_match_absent)
    from dataset_match_row [of rows ?t r] some rows
    obtain row where "row \<in> set rows" "result_severity r = risk_level row"
      "result_advice r = ''Possible: '' @ disease row @
             ''. Please consult a doctor for proper diagnosis.''"
      by blast
    note row = this
    have tv: "?v = (result_severity r, result_advice r, result_disease r)"
      by (simp add: triage_dataset [OF some])
    have "fst ?v = result_severity r" "fst (snd ?v) \<noteq> ''''"
      unfolding tv using row(3) by simp_all
    moreover have "\<exists>row \<in> set (case symptoms_df of None \<Rightarrow> [] | Some rows \<Rightarrow> rows).
         result_severity r = risk_level row"
      using rows row(1,2) by auto
    ultimately show ?thesis by blast
  qed
  have c1: "dataset_match symptoms_df ?t = None \<longrightarrow> fst ?v \<in> set SEVERITY_DISPLAY"
    using no_match by blast
  have c2: "symptoms_df = Some df \<and> (\<forall>row \<in> set df. risk_level row \<in> set SEVERITY_DISPLAY) \<longrightarrow>
      fst ?v \<in> set SEVERITY_DISPLAY"
  proof (intro impI)
    assume h: "symptoms_df = Some df \<and> (\<forall>row \<in> set df. risk_level row \<in> set SEVERITY_DISPLAY)"
    show "fst ?v \<in> set SEVERITY_DISPLAY"
    proof (cases "dataset_match symptoms_df ?t")
      case None
      then show ?thesis by (rule no_match)
    next
      case (Some r)
      from matched [OF Some] h show ?thesis by auto
    qed
  qed
  have c3: "dataset_match symptoms_df ?t = Some r \<longrightarrow>
      fst ?v = result_severity r \<and>
      (\<exists>row \<in> set (case symptoms_df of None \<Rightarrow> [] | Some rows \<Rightarrow> rows).
         result_severity r = risk_level row)"
    using matched by blast
  have c4: "dataset_match symptoms_df ?t \<noteq> None \<or>
        fst (llm_triage openai_client ?t) = None \<longrightarrow> fst (snd ?v) \<noteq> ''''"
  proof (intro impI)
    assume h: "dataset_match symptoms_df ?t \<noteq> None \<or> fst (llm_triage openai_client ?t) = None"
    show "fst (snd ?v) \<noteq> ''''"
    proof (cases "dataset_match symptoms_df ?t")
      case (Some r')
      from matched [OF Some] show ?thesis by blast
    next
      case None
      with h have "fst (llm_triage openai_client ?t) = None" by simp
      then obtain sent where "llm_triage openai_client ?t = (None, sent)"
        by (cases "llm_triage openai_client ?t") simp
      then have "?v = (fst (rule_based_triage ?t), snd (rule_based_triage ?t), '''')"
        by (simp add: triage_rule [OF None])
      then show ?thesis using rule_based_triage_shape [of ?t] by simp
    qed
  qed
  from c1 c2 c3 c4 show ?thesis by (intro conjI)
qed

theorem triage_verdict_shape_witness:
  "dataset_match (Some example_frame) (preprocess ''sore knee'') = None
   \<and> fst (fst (triage_symptoms (Some example_frame) (Some empty_reply) ''sore knee''))
       \<in> set SEVERITY_DISPLAY
   \<and> list_all (\<lambda>row. risk_level row \<in> set SEVERITY_DISPLAY) example_frame
   \<and> fst (fst (triage_symptoms (Some example_frame) None ''a bad COUGH'')) \<in> set SEVERITY_DISPLAY
   \<and> dataset_match (Some example_frame) (preprocess ''a bad COUGH'') =
       Some \<lparr>result_disease = ''Common cold'', result_severity = ''Mild'',
             result_advice =
               ''Possible: Common cold. Please consult a doctor for proper diagnosis.''\<rparr>
   \<and> fst (fst (triage_symptoms (Some example_frame) None ''a bad COUGH'')) = ''Mild''
   \<and> fst (snd (fst (triage_symptoms (Some example_frame) None ''a bad COUGH''))) \<noteq> ''''
   \<and> fst (llm_triage None (preprocess ''sore knee'')) = None
   \<and> fst (snd (fst (triage_symptoms (Some example_frame) None ''sore knee''))) \<noteq> ''''"
proof -
  let ?cold = "\<lparr>result_disease = ''Common cold'', result_severity = ''Mild'',
             result_advice =
               ''Possible: Common cold. Please consult a doctor for proper diagnosis.''\<rparr>"
  have d1: "dataset_match (Some example_frame) (preprocess ''sore knee'') = None"
    by code_simp
  have a1: "list_all (\<lambda>row. risk_level row \<in> set SEVERITY_DISPLAY) example_frame"
    by code_simp
  then have a2: "\<forall>row \<in> set example_frame. risk_level row \<in> set SEVERITY_DISPLAY"
    by (simp only: list_all_iff)
  have d2: "dataset_match (Some example_frame) (preprocess ''a bad COUGH'') = Some ?cold"
    by code_simp
  then have d2': "dataset_match (Some example_frame) (preprocess ''a bad COUGH'') \<noteq> None"
    by simp
  have l1: "fst (llm_triage None (preprocess ''sore knee'')) = None"
    by (simp add: llm_triage_disabled)
  have w1: "fst (fst (triage_symptoms (Some example_frame) (Some empty_reply) ''sore knee''))
       \<in> set SEVERITY_DISPLAY"
    using triage_verdict_shape [where symptoms_df = "Some example_frame"
        and raw = "''sore knee''" and openai_client = "Some empty_reply"] d1
    by blast
  have w2: "fst (fst (triage_symptoms (Some example_frame) None ''a bad COUGH''))
       \<in> set SEVERITY_DISPLAY"
    using triage_verdict_shape [where symptoms_df = "Some example_frame"
        and raw = "''a bad COUGH''" and openai_client = None and df = example_frame] a2
    by blast
  have "fst (fst (triage_symptoms (Some example_frame) None ''a bad COUGH'')) =
      result_severity ?cold"
    using triage_verdict_shape [where symptoms_df = "Some example_frame"
        and raw = "''a bad COUGH''" and openai_client = None and r = ?cold] d2
    by blast
  then have w5: "fst (fst (triage_symptoms (Some example_frame) None ''a bad COUGH'')) = ''Mild''"
    by simp
  have w3: "fst (snd (fst (triage_symptoms (Some example_frame) None ''a bad COUGH''))) \<noteq> ''''"
    using triage_verdict_shape [where symptoms_df = "Some example_frame"
        and raw = "''a bad COUGH''" and openai_client = None] d2'
    by blast
  have w4: "fst (snd (fst (triage_symptoms (Some example_frame) None ''sore knee''))) \<noteq> ''''"
    using triage_verdict_shape [where symptoms_df = "Some example_frame"
        and raw = "''sore knee''" and openai_client = None] l1
    by blast
  from d1 w1 a1 w2 d2 w5 w3 l1 w4 show ?thesis by (intro conjI)
qed

text \<open>
  The claim C1 as the specification states it fails twice. With no dataset and a service
  that answers with an empty content, the verdict of "fever" has an empty advice. With the
  file \<open>critical_file\<close> loaded, the verdict of "fever" has the severity "Critical".
\<close>

theorem triage_verdict_shape_counterexample:
  "fst (triage_symptoms None (Some empty_reply) ''fever'') = (''Mild'', '''', '''')
   \<and> fst (triage_symptoms (load_dataset (Some critical_file)) None ''fever'') =
       (''Critical'', ''Possible: Sepsis. Please consult a doctor for proper diagnosis.'',
        ''Sepsis'')
   \<and> ''Critical'' \<notin> set SEVERITY_DISPLAY"
proof -
  have p: "preprocess ''fever'' = ''fever''" by code_simp
  have e: "parse_response '''' = (''Mild'', '''', '''')" by code_simp
  have "llm_triage (Some empty_reply) (preprocess ''fever'') =
      (Some (parse_response ''''), [build_prompt (preprocess ''fever'')])"
    by (rule llm_triage_content) (simp add: empty_reply_def)
  then have "triage_symptoms None (Some empty_reply) ''fever'' =
      (parse_response '''', [build_prompt (preprocess ''fever'')])"
    by (rule triage_llm [OF dataset_match_absent])
  then have c1: "fst (triage_symptoms None (Some empty_reply) ''fever'') = (''Mild'', '''', '''')"
    by (simp only: e fst_conv)
  have c2: "fst (triage_symptoms (load_dataset (Some critical_file)) None ''fever'') =
       (''Critical'', ''Possible: Sepsis. Please consult a doctor for proper diagnosis.'',
        ''Sepsis'')"
    by code_simp
  have c3: "''Critical'' \<notin> set SEVERITY_DISPLAY"
    by (simp add: SEVERITY_DISPLAY_def)
  from c1 c2 c3 show ?thesis by (intro conjI)
qed

section \<open>Loading the dataset\<close>

lemma load_dataset_rows:
  "\<exists>df. load_dataset (Some raw_frame) = Some df \<and> length df = length raw_frame \<and>
     map risk_level df = map (\<lambda>row. title (strip (risk_level row))) raw_frame \<and>
     map symptom df = map (\<lambda>row. strip (lower (symptom row))) raw_frame"
  by (simp add: load_dataset_def comp_def)








section \<open>The dataset as pandas holds it\<close>

lemma collect_matches_text:
  "collect_matches (map text_row rows) t =
     Inr (map text_row (filter (\<lambda>row. contains t (symptom row)) rows))"
  by (induction rows) (simp_all add: text_row_def)

text \<open>On an index of texts the two forms of the dataset matcher, of the loader and of the
  triage engine agree.\<close>

lemma dataset_match_frame_text:
  "dataset_match_frame (Some (map text_row rows)) t =
     Inr (map_option
            (\<lambda>r. \<lparr>found_disease = Text (result_disease r),
                   found_severity = Text (result_severity r),
                   found_advice = result_advice r\<rparr>)
            (dataset_match (Some rows) t))"
proof (cases "filter (\<lambda>row. contains t (symptom row)) rows")
  case Nil
  then show ?thesis
    by (simp add: dataset_match_frame_def dataset_match_def collect_matches_text)
next
  case (Cons m ms)
  have key: "max_by (\<lambda>row. risk_priority_cell (risk_level_cell row)) (text_row b) (map text_row xs) =
      text_row (max_by (\<lambda>row. risk_priority (risk_level row)) b xs)" for b xs
    by (induction xs arbitrary: b) (simp_all add: text_row_def)
  show ?thesis
    by (simp add: dataset_match_frame_def dataset_match_def collect_matches_text Cons key Let_def)
       (simp add: text_row_def)
qed

lemma dataset_match_frame_absent: "dataset_match_frame None t = Inr None"
  by (simp add: dataset_match_frame_def)

lemma load_dataset_frame_text:
  "load_dataset_frame (Frame (text_frame rows)) =
     Inr (map_option (map text_row) (load_dataset (Some rows)))"
proof -
  have "map (\<lambda>(s, d, r). \<lparr>symptom_cell = s, disease_cell = d, risk_level_cell = r\<rparr>)
          (zip (map (\<lambda>row. Text (strip (lower (symptom row)))) rows)
             (zip (map (\<lambda>row. Text (strip (disease row))) rows)
                (map (\<lambda>row. Text (title (strip (risk_level row)))) rows))) =
        map (\<lambda>row. \<lparr>symptom_cell = Text (strip (lower (symptom row))),
                     disease_cell = Text (strip (disease row)),
                     risk_level_cell = Text (title (strip (risk_level row)))\<rparr>) rows"
    by (induction rows) simp_all
  then show ?thesis
    by (simp add: load_dataset_frame_def load_dataset_def text_frame_def text_row_def comp_def)
qed

lemma triage_symptoms_frame_text:
  "triage_symptoms_frame (map_option (map text_row) df) client raw =
     Inr (case triage_symptoms df client raw of
            ((sev, adv, dis), sent) \<Rightarrow> ((Text sev, adv, Text dis), sent))"
proof (cases df)
  case None
  then show ?thesis
    by (simp add: triage_symptoms_frame_def triage_symptoms_def dataset_match_frame_absent
        dataset_match_absent Let_def split: prod.splits option.splits)
next
  case (Some rows)
  then show ?thesis
    by (simp add: triage_symptoms_frame_def triage_symptoms_def dataset_match_frame_text Let_def
        split: prod.splits option.splits)
qed

text \<open>One missing value in the symptom column is enough for every call to raise.\<close>

lemma collect_matches_missing:
  "row \<in> set rows \<Longrightarrow> symptom_cell row = NaN \<Longrightarrow> collect_matches rows t = Inl TypeError"
proof (induction rows)
  case Nil
  then show ?case by simp
next
  case (Cons r rows)
  show ?case
  proof (cases "symptom_cell r")
    case NaN
    then show ?thesis by simp
  next
    case (Text phrase)
    with Cons.prems have "row \<in> set rows" by auto
    then have "collect_matches rows t = Inl TypeError"
      using Cons.IH Cons.prems(2) by blast
    with Text show ?thesis by simp
  qed
qed

lemma triage_symptoms_frame_missing:
  "row \<in> set rows \<Longrightarrow> symptom_cell row = NaN \<Longrightarrow>
     triage_symptoms_frame (Some rows) client raw = Inl TypeError"
  by (simp add: triage_symptoms_frame_def dataset_match_frame_def collect_matches_missing)

text \<open>
  C6 fails on the code. The file \<open>gap_frame\<close> has an empty cell in its symptom column. It is
  loaded without an error, the cell kept as the missing value. With that index every call
  of triage raises \<^verbatim>\<open>TypeError\<close> from the dataset matcher, whether the reasoning
  capability is disabled or its call fails: the failure of the dataset tier reaches the
  caller, and no verdict is returned.
\<close>

theorem dataset_failure_reaches_caller:
  "load_dataset_frame (Frame gap_frame) =
     Inr (Some [\<lparr>symptom_cell = Text ''fever'', disease_cell = Text ''Flu'',
                  risk_level_cell = Text ''Moderate''\<rparr>,
                \<lparr>symptom_cell = NaN, disease_cell = Text ''Cold'',
                  risk_level_cell = Text ''Mild''\<rparr>])
   \<and> triage_symptoms_frame
       (Some [\<lparr>symptom_cell = Text ''fever'', disease_cell = Text ''Flu'',
                risk_level_cell = Text ''Moderate''\<rparr>,
              \<lparr>symptom_cell = NaN, disease_cell = Text ''Cold'',
                risk_level_cell = Text ''Mild''\<rparr>])
       None ''I have a fever'' = Inl TypeError
   \<and> triage_symptoms_frame
       (Some [\<lparr>symptom_cell = Text ''fever'', disease_cell = Text ''Flu'',
                risk_level_cell = Text ''Moderate''\<rparr>,
              \<lparr>symptom_cell = NaN, disease_cell = Text ''Cold'',
                risk_level_cell = Text ''Mild''\<rparr>])
       (Some failing_client) ''I have a fever'' = Inl TypeError"
proof -
  let ?index = "[\<lparr>symptom_cell = Text ''fever'', disease_cell = Text ''Flu'',
                  risk_level_cell = Text ''Moderate''\<rparr>,
                \<lparr>symptom_cell = NaN, disease_cell = Text ''Cold'',
                  risk_level_cell = Text ''Mild''\<rparr>]"
  have l: "load_dataset_frame (Frame gap_frame) = Inr (Some ?index)"
    by code_simp
  have t1: "triage_symptoms_frame (Some ?index) None ''I have a fever'' = Inl TypeError"
    by code_simp
  have t2: "triage_symptoms_frame (Some ?index) (Some failing_client) ''I have a fever'' =
      Inl TypeError"
    by code_simp
  from l t1 t2 show ?thesis by (intro conjI)
qed

section \<open>Loading the dataset as pandas does\<close>









end
